theory Spec2Isabelle
  imports Main "HOL-Library.AList"
begin

section \<open>Data model (src/database: WalletTransaction, Customer; the in-memory store)\<close>

text \<open>
  Amounts are kobo. The source type is a JavaScript number; the ledger only ever adds and
  subtracts integer kobo values, so amounts are modelled as unbounded integers.
  Dates are modelled as natural-number clock readings.
\<close>

datatype WalletTransactionType = CreditT | DebitT

datatype WalletTransactionStatus = Pending | Completed | Failed | Reversed

datatype PaymentMethod = Card | Bank_transfer | Admin | Api_charge | Refund

datatype MetaValue = MStr string | MNum int | MUndefined

type_synonym Metadata = "(string \<times> MetaValue) list"

text \<open>
  Of a \<open>Customer\<close> the ledger reads and writes \<open>walletBalance\<close>, and \<open>updateCustomer\<close>
  stamps \<open>updatedAt\<close>; the other fields (email, company, status, ...) are carried along
  unchanged by every operation here and are left out.
\<close>

record Customer =
  walletBalance :: int
  updatedAt :: nat

record WalletTransactionData =
  d_customerId :: string
  d_type :: WalletTransactionType
  d_amount :: int
  d_balanceBefore :: int
  d_balanceAfter :: int
  d_description :: string
  d_reference :: string
  d_usageRecordId :: "string option"
  d_paymentMethod :: "PaymentMethod option"
  d_status :: WalletTransactionStatus
  d_metadata :: "Metadata option"

record WalletTransaction =
  txnId :: string
  customerId :: string
  txnType :: WalletTransactionType
  amount :: int
  balanceBefore :: int
  balanceAfter :: int
  description :: string
  reference :: string
  usageRecordId :: "string option"
  paymentMethod :: "PaymentMethod option"
  status :: WalletTransactionStatus
  metadata :: "Metadata option"
  createdAt :: nat
  completedAt :: "nat option"

text \<open>
  The store is the class \<open>MemoryDatabase\<close>: two JavaScript \<open>Map\<close>s. A \<open>Map\<close> iterates in
  insertion order and \<open>Map.set\<close> on a key already present replaces the value where it
  stands, which is what \<^const>\<open>AList.update\<close> does on an association list.
\<close>

record MemoryDatabase =
  customers :: "(string \<times> Customer) list"
  walletTransactions :: "(string \<times> WalletTransaction) list"

text \<open>
  What a call draws from its environment: the clock (\<open>now()\<close>, \<open>Date.now()\<close>) and
  \<open>Math.random()\<close>. \<open>randomId\<close> is \<open>Math.random().toString(36).slice(2, 10)\<close> of
  \<open>createWalletTransaction\<close>; \<open>timestamp36\<close> and \<open>random36\<close> are the two strings
  \<open>generateReference\<close> builds from the clock and the random generator.
\<close>

record Env =
  nowT :: nat
  randomId :: string
  timestamp36 :: string
  random36 :: string

text \<open>
  Errors. The three error classes of the wallet service, and \<open>Error name message\<close> for
  the plain \<open>Error\<close> objects whose \<open>name\<close> the code sets by hand (or leaves as \<open>Error\<close>).
\<close>

datatype WalletError =
    WalletNotFoundError string
  | InsufficientBalanceError (requiredAmount: int) (currentBalance: int) (shortfall: int)
  | DuplicateTransactionError string
  | Error string string

definition newInsufficientBalanceError :: "int \<Rightarrow> int \<Rightarrow> WalletError" where
  "newInsufficientBalanceError required current =
     (let shortfall = required - current
      in InsufficientBalanceError required current shortfall)"

section \<open>The in-memory store (MemoryDatabase)\<close>

definition getCustomer :: "MemoryDatabase \<Rightarrow> string \<Rightarrow> Customer option" where
  "getCustomer db cid = map_of (customers db) cid"

text \<open>\<open>updateCustomer(customerId, { walletBalance })\<close>: the only update the ledger makes.\<close>

definition updateCustomer ::
  "Env \<Rightarrow> MemoryDatabase \<Rightarrow> string \<Rightarrow> int \<Rightarrow> (WalletError + Customer) \<times> MemoryDatabase" where
  "updateCustomer env db cid newBalance =
     (case map_of (customers db) cid of
        None \<Rightarrow> (Inl (Error ''Error'' ''CUSTOMER_NOT_FOUND''), db)
      | Some cur \<Rightarrow>
          (let next = cur\<lparr>walletBalance := newBalance, updatedAt := nowT env\<rparr>
           in (Inr next, db\<lparr>customers := AList.update cid next (customers db)\<rparr>)))"

text \<open>The identifier \<open>createWalletTransaction\<close> draws: \<open>'txn_' + Math.random()...\<close>.\<close>

definition newTxnId :: "Env \<Rightarrow> string" where
  "newTxnId env = ''txn_'' @ randomId env"

definition createWalletTransaction ::
  "Env \<Rightarrow> MemoryDatabase \<Rightarrow> WalletTransactionData \<Rightarrow> WalletTransaction \<times> MemoryDatabase" where
  "createWalletTransaction env db dat =
     (let newId = newTxnId env;
          txn = \<lparr> txnId = newId,
                  customerId = d_customerId dat,
                  txnType = d_type dat,
                  amount = d_amount dat,
                  balanceBefore = d_balanceBefore dat,
                  balanceAfter = d_balanceAfter dat,
                  description = d_description dat,
                  reference = d_reference dat,
                  usageRecordId = d_usageRecordId dat,
                  paymentMethod = d_paymentMethod dat,
                  status = d_status dat,
                  metadata = d_metadata dat,
                  createdAt = nowT env,
                  completedAt = (if d_status dat = Completed then Some (nowT env) else None) \<rparr>
      in (txn, db\<lparr>walletTransactions := AList.update newId txn (walletTransactions db)\<rparr>))"

definition getWalletTransaction :: "MemoryDatabase \<Rightarrow> string \<Rightarrow> WalletTransaction option" where
  "getWalletTransaction db tid = map_of (walletTransactions db) tid"

definition getWalletTransactionByReference ::
  "MemoryDatabase \<Rightarrow> string \<Rightarrow> WalletTransaction option" where
  "getWalletTransactionByReference db ref =
     find (\<lambda>txn. reference txn = ref) (map snd (walletTransactions db))"

definition updateWalletTransactionStatus ::
  "Env \<Rightarrow> MemoryDatabase \<Rightarrow> string \<Rightarrow> WalletTransactionStatus \<Rightarrow> nat option
     \<Rightarrow> (WalletError + WalletTransaction) \<times> MemoryDatabase" where
  "updateWalletTransactionStatus env db tid st completedAtArg =
     (case map_of (walletTransactions db) tid of
        None \<Rightarrow> (Inl (Error ''Error'' ''Transaction not found''), db)
      | Some txn \<Rightarrow>
          (let updated = txn\<lparr> status := st,
                               completedAt :=
                                 (case completedAtArg of
                                    Some d \<Rightarrow> Some d
                                  | None \<Rightarrow> (if st = Completed then Some (nowT env)
                                             else completedAt txn)) \<rparr>
           in (Inr updated,
               db\<lparr>walletTransactions := AList.update tid updated (walletTransactions db)\<rparr>)))"

section \<open>The wallet service (src/services/wallet.service.ts)\<close>

text \<open>ASCII upper-casing, for \<open>toUpperCase()\<close> on references.\<close>

definition toUpperChar :: "char \<Rightarrow> char" where
  "toUpperChar c =
     (if (97::nat) \<le> of_char c \<and> of_char c \<le> (122::nat)
      then char_of (of_char c - (32::nat)) else c)"

definition toUpperCase :: "string \<Rightarrow> string" where
  "toUpperCase s = map toUpperChar s"

text \<open>JavaScript \<open>a || b\<close> on an optional string: absent and empty are both falsy.\<close>

definition orElse :: "string option \<Rightarrow> string \<Rightarrow> string" where
  "orElse a b = (case a of None \<Rightarrow> b | Some s \<Rightarrow> (if s = [] then b else s))"

definition generateReference :: "Env \<Rightarrow> WalletTransactionType \<Rightarrow> string option \<Rightarrow> string" where
  "generateReference env ty prefix =
     (let typePrefix = (if ty = CreditT then ''CR'' else ''DR'')
      in toUpperCase (orElse prefix ''TXN'' @ ''_'' @ typePrefix @ ''_''
                        @ timestamp36 env @ ''_'' @ random36 env))"

text \<open>
  \<open>WalletBalance\<close>: the two fields \<open>balanceNaira\<close> and \<open>formattedBalance\<close> are renderings of
  \<open>balanceKobo\<close> and are left out.
\<close>

record WalletBalance =
  wb_customerId :: string
  balanceKobo :: int

record DebitResult =
  success :: bool
  transaction :: WalletTransaction
  newBalance :: WalletBalance

type_synonym CreditResult = DebitResult

definition formatBalance :: "string \<Rightarrow> int \<Rightarrow> WalletBalance" where
  "formatBalance cid kobo = \<lparr> wb_customerId = cid, balanceKobo = kobo \<rparr>"

record DebitOptions =
  do_reference :: "string option"
  do_serviceCode :: "string option"
  do_usageRecordId :: "string option"
  do_metadata :: "Metadata option"

record CreditOptions =
  co_reference :: "string option"
  co_paymentMethod :: "PaymentMethod option"
  co_metadata :: "Metadata option"

definition getBalance :: "MemoryDatabase \<Rightarrow> string \<Rightarrow> WalletError + WalletBalance" where
  "getBalance db cid =
     (case getCustomer db cid of
        None \<Rightarrow> Inl (WalletNotFoundError cid)
      | Some customer \<Rightarrow> Inr (formatBalance cid (walletBalance customer)))"

definition hasSufficientBalance :: "MemoryDatabase \<Rightarrow> string \<Rightarrow> int \<Rightarrow> WalletError + bool" where
  "hasSufficientBalance db cid amountKobo =
     (case getBalance db cid of
        Inl e \<Rightarrow> Inl e
      | Inr balance \<Rightarrow> Inr (balanceKobo balance \<ge> amountKobo))"

definition debit ::
  "Env \<Rightarrow> MemoryDatabase \<Rightarrow> string \<Rightarrow> int \<Rightarrow> string \<Rightarrow> DebitOptions
     \<Rightarrow> (WalletError + DebitResult) \<times> MemoryDatabase" where
  "debit env db cid amountKobo descr opts =
     (case getCustomer db cid of
        None \<Rightarrow> (Inl (WalletNotFoundError cid), db)
      | Some customer \<Rightarrow>
          (let before = walletBalance customer in
           if before < amountKobo
           then (Inl (newInsufficientBalanceError amountKobo before), db)
           else
             (let ref = orElse (do_reference opts)
                          (generateReference env DebitT (do_serviceCode opts)) in
              case getWalletTransactionByReference db ref of
                Some existingTxn \<Rightarrow> (Inl (DuplicateTransactionError ref), db)
              | None \<Rightarrow>
                  (let after = before - amountKobo;
                       transactionData =
                         \<lparr> d_customerId = cid, d_type = DebitT, d_amount = amountKobo,
                           d_balanceBefore = before, d_balanceAfter = after,
                           d_description = descr, d_reference = ref,
                           d_usageRecordId = do_usageRecordId opts,
                           d_paymentMethod = Some Api_charge,
                           d_status = Completed, d_metadata = do_metadata opts \<rparr>;
                       (txn, db1) = createWalletTransaction env db transactionData
                   in case updateCustomer env db1 cid after of
                        (Inl e, db2) \<Rightarrow> (Inl e, db2)
                      | (Inr _, db2) \<Rightarrow>
                          (Inr \<lparr> success = True, transaction = txn,
                                 newBalance = formatBalance cid after \<rparr>, db2)))))"

definition credit ::
  "Env \<Rightarrow> MemoryDatabase \<Rightarrow> string \<Rightarrow> int \<Rightarrow> string \<Rightarrow> CreditOptions
     \<Rightarrow> (WalletError + CreditResult) \<times> MemoryDatabase" where
  "credit env db cid amountKobo descr opts =
     (case getCustomer db cid of
        None \<Rightarrow> (Inl (WalletNotFoundError cid), db)
      | Some customer \<Rightarrow>
          (let before = walletBalance customer;
               ref = orElse (co_reference opts) (generateReference env CreditT None) in
           case getWalletTransactionByReference db ref of
             Some existingTxn \<Rightarrow> (Inl (DuplicateTransactionError ref), db)
           | None \<Rightarrow>
               (let after = before + amountKobo;
                    transactionData =
                      \<lparr> d_customerId = cid, d_type = CreditT, d_amount = amountKobo,
                        d_balanceBefore = before, d_balanceAfter = after,
                        d_description = descr, d_reference = ref,
                        d_usageRecordId = None,
                        d_paymentMethod =
                          Some (case co_paymentMethod opts of None \<Rightarrow> Card | Some m \<Rightarrow> m),
                        d_status = Completed, d_metadata = co_metadata opts \<rparr>;
                    (txn, db1) = createWalletTransaction env db transactionData
                in case updateCustomer env db1 cid after of
                     (Inl e, db2) \<Rightarrow> (Inl e, db2)
                   | (Inr _, db2) \<Rightarrow>
                       (Inr \<lparr> success = True, transaction = txn,
                              newBalance = formatBalance cid after \<rparr>, db2))))"

definition refund ::
  "Env \<Rightarrow> MemoryDatabase \<Rightarrow> string \<Rightarrow> string
     \<Rightarrow> (WalletError + CreditResult) \<times> MemoryDatabase" where
  "refund env db originalTransactionId reason =
     (case getWalletTransaction db originalTransactionId of
        None \<Rightarrow> (Inl (Error ''TransactionNotFoundError'' ''Transaction not found''), db)
      | Some originalTxn \<Rightarrow>
          if txnType originalTxn \<noteq> DebitT
          then (Inl (Error ''InvalidTransactionError'' ''Invalid transaction type for refund''), db)
          else if status originalTxn = Reversed
          then (Inl (Error ''DuplicateRefundError'' ''Transaction already refunded''), db)
          else
            (case credit env db (customerId originalTxn) (amount originalTxn)
                    (''Refund: '' @ reason)
                    \<lparr> co_reference = None, co_paymentMethod = Some Refund,
                      co_metadata = Some [(''originalTransactionId'', MStr originalTransactionId),
                                          (''refundReason'', MStr reason)] \<rparr> of
               (Inl e, db1) \<Rightarrow> (Inl e, db1)
             | (Inr result, db1) \<Rightarrow>
                 (case updateWalletTransactionStatus env db1 originalTransactionId Reversed None of
                    (Inl e, db2) \<Rightarrow> (Inl e, db2)
                  | (Inr _, db2) \<Rightarrow> (Inr result, db2))))"

definition reserveBalance ::
  "Env \<Rightarrow> MemoryDatabase \<Rightarrow> string \<Rightarrow> int \<Rightarrow> string \<Rightarrow> string option
     \<Rightarrow> (WalletError + WalletTransaction) \<times> MemoryDatabase" where
  "reserveBalance env db cid amountKobo descr serviceCode =
     (case getCustomer db cid of
        None \<Rightarrow> (Inl (WalletNotFoundError cid), db)
      | Some customer \<Rightarrow>
          if walletBalance customer < amountKobo
          then (Inl (newInsufficientBalanceError amountKobo (walletBalance customer)), db)
          else
            (let ref = generateReference env DebitT serviceCode;
                 before = walletBalance customer;
                 after = before - amountKobo;
                 (txn, db1) = createWalletTransaction env db
                    \<lparr> d_customerId = cid, d_type = DebitT, d_amount = amountKobo,
                      d_balanceBefore = before, d_balanceAfter = after,
                      d_description = descr, d_reference = ref,
                      d_usageRecordId = None, d_paymentMethod = Some Api_charge,
                      d_status = Pending, d_metadata = None \<rparr>
             in (Inr txn, db1)))"

definition completeReservation ::
  "Env \<Rightarrow> MemoryDatabase \<Rightarrow> string \<Rightarrow> (WalletError + DebitResult) \<times> MemoryDatabase" where
  "completeReservation env db transactionId =
     (case getWalletTransaction db transactionId of
        None \<Rightarrow> (Inl (Error ''TransactionNotFoundError'' ''Transaction not found''), db)
      | Some txn \<Rightarrow>
          if status txn \<noteq> Pending
          then (Inl (Error ''InvalidTransactionStatusError''
                       ''Transaction is not in pending status''), db)
          else
            (case updateCustomer env db (customerId txn) (balanceAfter txn) of
               (Inl e, db1) \<Rightarrow> (Inl e, db1)
             | (Inr _, db1) \<Rightarrow>
                 (case updateWalletTransactionStatus env db1 transactionId Completed
                         (Some (nowT env)) of
                    (Inl e, db2) \<Rightarrow> (Inl e, db2)
                  | (Inr completedTxn, db2) \<Rightarrow>
                      (Inr \<lparr> success = True, transaction = completedTxn,
                             newBalance = formatBalance (customerId txn) (balanceAfter txn) \<rparr>,
                       db2))))"

definition cancelReservation ::
  "Env \<Rightarrow> MemoryDatabase \<Rightarrow> string \<Rightarrow> (WalletError + unit) \<times> MemoryDatabase" where
  "cancelReservation env db transactionId =
     (case getWalletTransaction db transactionId of
        None \<Rightarrow> (Inl (Error ''TransactionNotFoundError'' ''Transaction not found''), db)
      | Some txn \<Rightarrow>
          if status txn \<noteq> Pending
          then (Inl (Error ''InvalidTransactionStatusError''
                       ''Transaction is not in pending status''), db)
          else
            (case updateWalletTransactionStatus env db transactionId Failed None of
               (Inl e, db1) \<Rightarrow> (Inl e, db1)
             | (Inr _, db1) \<Rightarrow> (Inr (), db1)))"


text \<open>The reference a call uses: \<open>options.reference || generateReference(...)\<close>.\<close>

abbreviation debitReference :: "Env \<Rightarrow> DebitOptions \<Rightarrow> string" where
  "debitReference env opts \<equiv>
     orElse (do_reference opts) (generateReference env DebitT (do_serviceCode opts))"

abbreviation creditReference :: "Env \<Rightarrow> CreditOptions \<Rightarrow> string" where
  "creditReference env opts \<equiv> orElse (co_reference opts) (generateReference env CreditT None)"

text \<open>The stored balance of an account, if the account exists.\<close>

definition balanceOf :: "MemoryDatabase \<Rightarrow> string \<Rightarrow> int option" where
  "balanceOf db cid = map_option walletBalance (getCustomer db cid)"

text \<open>The stored status of a transaction, if the transaction exists.\<close>

definition statusOf :: "MemoryDatabase \<Rightarrow> string \<Rightarrow> WalletTransactionStatus option" where
  "statusOf db tid = map_option status (getWalletTransaction db tid)"

text \<open>The records that \<open>debit\<close>, \<open>credit\<close> and \<open>reserveBalance\<close> hand to \<open>createWalletTransaction\<close>, as stored.\<close>

definition debitTxn :: "Env \<Rightarrow> string \<Rightarrow> int \<Rightarrow> int \<Rightarrow> string \<Rightarrow> DebitOptions \<Rightarrow> WalletTransaction" where
  "debitTxn env cid before amt descr opts =
    \<lparr> txnId = newTxnId env, customerId = cid, txnType = DebitT, amount = amt,
      balanceBefore = before, balanceAfter = before - amt, description = descr,
      reference = debitReference env opts, usageRecordId = do_usageRecordId opts,
      paymentMethod = Some Api_charge, status = Completed, metadata = do_metadata opts,
      createdAt = nowT env, completedAt = Some (nowT env) \<rparr>"

definition creditTxn :: "Env \<Rightarrow> string \<Rightarrow> int \<Rightarrow> int \<Rightarrow> string \<Rightarrow> CreditOptions \<Rightarrow> WalletTransaction" where
  "creditTxn env cid before amt descr opts =
    \<lparr> txnId = newTxnId env, customerId = cid, txnType = CreditT, amount = amt,
      balanceBefore = before, balanceAfter = before + amt, description = descr,
      reference = creditReference env opts, usageRecordId = None,
      paymentMethod = Some (case co_paymentMethod opts of None \<Rightarrow> Card | Some m \<Rightarrow> m),
      status = Completed, metadata = co_metadata opts,
      createdAt = nowT env, completedAt = Some (nowT env) \<rparr>"

definition reserveTxn :: "Env \<Rightarrow> string \<Rightarrow> int \<Rightarrow> int \<Rightarrow> string \<Rightarrow> string option \<Rightarrow> WalletTransaction" where
  "reserveTxn env cid before amt descr code =
    \<lparr> txnId = newTxnId env, customerId = cid, txnType = DebitT, amount = amt,
      balanceBefore = before, balanceAfter = before - amt, description = descr,
      reference = generateReference env DebitT code, usageRecordId = None,
      paymentMethod = Some Api_charge, status = Pending, metadata = None,
      createdAt = nowT env, completedAt = None \<rparr>"

section \<open>Service codes (src/services/pricing.service.ts)\<close>

text \<open>
  \<open>String.prototype.split\<close> with a one-character separator: the pieces between the
  separators, so never an empty list (the first case of the \<open>case\<close> does not arise).
\<close>

fun split_on :: "char \<Rightarrow> string \<Rightarrow> string list" where
  "split_on sep [] = [ [] ]"
| "split_on sep (c # cs) =
     (case split_on sep cs of
        [] \<Rightarrow> [ [c] ]
      | piece # pieces \<Rightarrow>
          (if c = sep then [] # piece # pieces else (c # piece) # pieces))"

definition knownServiceCodes :: "string list" where
  "knownServiceCodes =
     [''name-search'', ''name-registration'', ''company-registration'',
      ''drivers-license-verification'', ''passport-verification'',
      ''voters-card-verification'', ''passport-face-verification'', ''bvn-basic'']"

text \<open>The loop \<open>for (const segment of segments) if (known.includes(segment)) return segment\<close>.\<close>

fun firstKnown :: "string list \<Rightarrow> string option" where
  "firstKnown [] = None"
| "firstKnown (segment # rest) =
     (if segment \<in> set knownServiceCodes then Some segment else firstKnown rest)"

text \<open>\<open>Array.prototype.indexOf\<close>: \<open>-1\<close> when the element is absent.\<close>

fun indexOf :: "string list \<Rightarrow> string \<Rightarrow> int" where
  "indexOf [] x = -1"
| "indexOf (y # ys) x =
     (if y = x then 0 else (let i = indexOf ys x in if i = -1 then -1 else i + 1))"

text \<open>\<open>xs[i]\<close>: \<open>undefined\<close> (here \<open>None\<close>) out of range.\<close>

definition at :: "'a list \<Rightarrow> int \<Rightarrow> 'a option" where
  "at xs i = (if 0 \<le> i \<and> i < int (length xs) then Some (xs ! nat i) else None)"

text \<open>\<open>/[0-9]/.test(s)\<close>.\<close>

definition hasDigit :: "string \<Rightarrow> bool" where
  "hasDigit s = list_ex (\<lambda>c. c \<in> set ''0123456789'') s"

definition pathSegments :: "string \<Rightarrow> string list" where
  "pathSegments endpoint =
     (let pathOnly = hd (split_on (CHR ''?'') endpoint)
      in filter (\<lambda>s. s \<noteq> []) (split_on (CHR ''/'') pathOnly))"

definition getServiceCodeFromEndpoint :: "string \<Rightarrow> string option" where
  "getServiceCodeFromEndpoint endpoint =
     (let segments = pathSegments endpoint in
      case firstKnown segments of
        Some segment \<Rightarrow> Some segment
      | None \<Rightarrow>
          (let businessIndex = indexOf segments ''business'' in
           if businessIndex \<noteq> -1 \<and> int (length segments) > businessIndex + 1
           then
             (let nextSegment = at segments (businessIndex + 1) in
              if nextSegment = Some ''identity'' \<and> int (length segments) > businessIndex + 2
              then at segments (businessIndex + 2)
              else nextSegment)
           else if length segments \<ge> 2
           then
             (let lastSegment = at segments (int (length segments) - 1) in
              if (case lastSegment of None \<Rightarrow> False | Some l \<Rightarrow> hasDigit l)
              then at segments (int (length segments) - 2)
              else lastSegment)
           else
             (case at segments (int (length segments) - 1) of
                None \<Rightarrow> None
              | Some s \<Rightarrow> (if s = [] then None else Some s))))"

section \<open>The charging middleware (chargeWallet, processCharge)\<close>

record WalletContext =
  serviceCode :: string
  priceKobo :: int
  wc_balanceBefore :: int
  charged :: bool
  transactionId :: "string option"
  chargeError :: "string option"

datatype LogType = CHECK | CHARGE | SKIP | ERROR

text \<open>
  What leaves the process, in the order it happens: a line of the wallet log
  (\<open>logWalletOperation\<close>), a line of \<open>console.error\<close>, and the response handed to
  Express (\<open>originalJson(body)\<close>, \<open>originalSend(body)\<close>). Of a log line the type and the
  message are kept; the message of a \<open>CHARGE\<close> line is represented by the service code it
  names (the source also renders the price into it).
\<close>

datatype Event = Logged LogType string | ConsoleError string | ResponseSent string

text \<open>
  One request as \<open>chargeWallet\<close> sees it: the fields of \<open>req\<close> and \<open>res\<close> it reads, the
  closure variable \<open>hasCharged\<close>, the store, and the events so far.
\<close>

record Request =
  walletContext :: "WalletContext option"
  customer :: "string option"
  originalUrl :: string
  httpMethod :: string
  requestId :: "string option"
  statusCode :: int
  hasCharged :: bool
  database :: MemoryDatabase
  events :: "Event list"

definition errorMessage :: "WalletError \<Rightarrow> string" where
  "errorMessage e =
     (case e of
        WalletNotFoundError _ \<Rightarrow> ''Wallet not found''
      | InsufficientBalanceError _ _ _ \<Rightarrow> ''Insufficient wallet balance for transaction''
      | DuplicateTransactionError _ \<Rightarrow> ''Duplicate transaction detected''
      | Error _ msg \<Rightarrow> msg)"

definition emit :: "Event \<Rightarrow> Request \<Rightarrow> Request" where
  "emit ev r = r\<lparr>events := events r @ [ev]\<rparr>"

text \<open>
  \<open>processCharge\<close> is an \<open>async\<close> function with one \<open>await\<close>, on \<open>WalletService.debit\<close>.
  A call runs the body up to that \<open>await\<close> at once (\<open>processCharge_begin\<close>); what follows
  the \<open>await\<close> runs later, from the microtask queue (\<open>processCharge_resume\<close>). Every write of
  \<open>debit\<close> lies behind its own first \<open>await\<close>, so the debit is applied in the second part.
\<close>

datatype ChargeStep = Finished bool | AwaitingDebit string int string

definition processCharge_begin :: "Request \<Rightarrow> ChargeStep \<times> Request" where
  "processCharge_begin r =
     (if hasCharged r then (Finished True, r)
      else
        (case walletContext r of
           None \<Rightarrow> (Finished True, r)
         | Some wc \<Rightarrow>
             (if charged wc then (Finished True, r)
              else if priceKobo wc = 0 then (Finished True, r)
              else
                (case customer r of
                   None \<Rightarrow>
                     (Finished True, emit (Logged SKIP ''No customer attached to request'') r)
                 | Some cid \<Rightarrow>
                     (if statusCode r < 200 \<or> statusCode r \<ge> 300
                      then (Finished True, emit (Logged SKIP ''Non-2xx response, no charge'') r)
                      else (AwaitingDebit cid (priceKobo wc) (serviceCode wc),
                            r\<lparr>hasCharged := True\<rparr>))))))"

definition processCharge_resume ::
  "Env \<Rightarrow> string \<Rightarrow> int \<Rightarrow> string \<Rightarrow> Request \<Rightarrow> bool \<times> Request" where
  "processCharge_resume env cid price code r =
     (case debit env (database r) cid price (''API: '' @ code)
             \<lparr> do_reference = None, do_serviceCode = Some code, do_usageRecordId = None,
               do_metadata = Some [(''endpoint'', MStr (originalUrl r)),
                                   (''method'', MStr (httpMethod r)),
                                   (''requestId'', (case requestId r of None \<Rightarrow> MUndefined
                                                    | Some i \<Rightarrow> MStr i)),
                                   (''statusCode'', MNum (statusCode r)),
                                   (''timestamp'', MNum (int (nowT env)))] \<rparr> of
        (Inr result, db') \<Rightarrow>
          (True,
           emit (Logged CHARGE code)
             (r\<lparr> database := db',
                 walletContext :=
                   map_option (\<lambda>wc. wc\<lparr> charged := True,
                                          transactionId := Some (txnId (transaction result)) \<rparr>)
                     (walletContext r) \<rparr>))
      | (Inl e, db') \<Rightarrow>
          (False,
           emit (Logged ERROR ''CHARGE FAILED - REQUIRES RECONCILIATION'')
             (r\<lparr> database := db',
                 walletContext :=
                   map_option (\<lambda>wc. wc\<lparr> chargeError := Some (errorMessage e) \<rparr>)
                     (walletContext r) \<rparr>)))"

text \<open>One whole invocation of \<open>processCharge\<close>, run to the end.\<close>

definition processCharge :: "Env \<Rightarrow> Request \<Rightarrow> bool \<times> Request" where
  "processCharge env r =
     (case processCharge_begin r of
        (Finished b, r1) \<Rightarrow> (b, r1)
      | (AwaitingDebit cid price code, r1) \<Rightarrow> processCharge_resume env cid price code r1)"

text \<open>Repeated invocations for one request, and how many of them call \<open>debit\<close>.\<close>

fun processChargeAll :: "Env list \<Rightarrow> Request \<Rightarrow> Request" where
  "processChargeAll [] r = r"
| "processChargeAll (env # envs) r = processChargeAll envs (snd (processCharge env r))"

fun debitCalls :: "Env list \<Rightarrow> Request \<Rightarrow> nat" where
  "debitCalls [] r = 0"
| "debitCalls (env # envs) r =
     (case fst (processCharge_begin r) of Finished _ \<Rightarrow> 0 | AwaitingDebit _ _ _ \<Rightarrow> 1)
     + debitCalls envs (snd (processCharge env r))"

text \<open>Express's own \<open>res.json\<close>: the response is handed over.\<close>

definition originalJson :: "string \<Rightarrow> Request \<Rightarrow> Request" where
  "originalJson body r = emit (ResponseSent body) r"

text \<open>
  The override of \<open>res.json\<close> (that of \<open>res.send\<close> is the same code around
  \<open>originalSend\<close>). It calls an \<open>async\<close> arrow function and does not wait for the
  promise: the arrow function runs up to the \<open>await\<close> inside \<open>processCharge\<close>, then
  \<open>return originalJson(body)\<close> runs. \<open>res_json_returned\<close> is the request when \<open>res.json\<close>
  returns; \<open>res_json_settled\<close> is the request once the suspended arrow function has run on.
\<close>

definition res_json_returned :: "string \<Rightarrow> Request \<Rightarrow> ChargeStep \<times> Request" where
  "res_json_returned body r =
     (let (step, r1) = processCharge_begin r
      in (step, originalJson body r1))"

definition res_json_settled :: "Env \<Rightarrow> string \<Rightarrow> Request \<Rightarrow> Request" where
  "res_json_settled env body r =
     (case res_json_returned body r of
        (Finished ok, r2) \<Rightarrow>
          (if \<not> ok then emit (ConsoleError ''Charge failed - see logs for reconciliation'') r2
           else r2)
      | (AwaitingDebit cid price code, r2) \<Rightarrow>
          (let (ok, r3) = processCharge_resume env cid price code r2
           in if \<not> ok then emit (ConsoleError ''Charge failed - see logs for reconciliation'') r3
              else r3))"

section \<open>The balance-consistency invariant\<close>

text \<open>The completed transactions of an account, ordered by creation time.\<close>

definition completedTransactions :: "MemoryDatabase \<Rightarrow> string \<Rightarrow> WalletTransaction list" where
  "completedTransactions db cid =
     sort_key createdAt
       (filter (\<lambda>t. customerId t = cid \<and> status t = Completed) (map snd (walletTransactions db)))"

fun chained :: "WalletTransaction list \<Rightarrow> bool" where
  "chained (t1 # t2 # ts) = (balanceAfter t1 = balanceBefore t2 \<and> chained (t2 # ts))"
| "chained _ = True"

definition balanceConsistent :: "int \<Rightarrow> MemoryDatabase \<Rightarrow> string \<Rightarrow> bool" where
  "balanceConsistent initialBalance db cid =
     (let done = completedTransactions db cid
      in chained done \<and>
         balanceOf db cid =
           Some (if done = [] then initialBalance else balanceAfter (last done)))"

text \<open>Sequences of ledger operations; a run stops with \<open>None\<close> at the first one that fails.\<close>

datatype WalletOp =
    DebitOp Env string int string DebitOptions
  | CreditOp Env string int string CreditOptions
  | ReserveOp Env string int string "string option"
  | CompleteOp Env string

fun applyOp :: "WalletOp \<Rightarrow> MemoryDatabase \<Rightarrow> MemoryDatabase option" where
  "applyOp (DebitOp env cid amt descr opts) db =
     (case debit env db cid amt descr opts of (Inl e, db') \<Rightarrow> None | (Inr r, db') \<Rightarrow> Some db')"
| "applyOp (CreditOp env cid amt descr opts) db =
     (case credit env db cid amt descr opts of (Inl e, db') \<Rightarrow> None | (Inr r, db') \<Rightarrow> Some db')"
| "applyOp (ReserveOp env cid amt descr code) db =
     (case reserveBalance env db cid amt descr code of
        (Inl e, db') \<Rightarrow> None | (Inr r, db') \<Rightarrow> Some db')"
| "applyOp (CompleteOp env tid) db =
     (case completeReservation env db tid of (Inl e, db') \<Rightarrow> None | (Inr r, db') \<Rightarrow> Some db')"

fun runOps :: "WalletOp list \<Rightarrow> MemoryDatabase \<Rightarrow> MemoryDatabase option" where
  "runOps [] db = Some db"
| "runOps (op # ops) db = (case applyOp op db of None \<Rightarrow> None | Some db' \<Rightarrow> runOps ops db')"

text \<open>
  The conditions of the environment under which the invariant is kept: a new transaction
  gets an identifier not in use and a creation time not before those already stored, and
  a reservation is completed undisturbed, that is while the stored balance still is the
  reservation's \<open>balanceBefore\<close> and no completed transaction of the account was created
  after the reservation.
\<close>

definition freshEnv :: "Env \<Rightarrow> MemoryDatabase \<Rightarrow> bool" where
  "freshEnv env db =
     (newTxnId env \<notin> set (map fst (walletTransactions db))
      \<and> list_all (\<lambda>t. createdAt t \<le> nowT env) (map snd (walletTransactions db)))"

definition laterTransactions :: "MemoryDatabase \<Rightarrow> string \<Rightarrow> WalletTransaction list" where
  "laterTransactions db tid =
     map snd (drop 1 (dropWhile (\<lambda>kv. fst kv \<noteq> tid) (walletTransactions db)))"

definition undisturbed :: "MemoryDatabase \<Rightarrow> string \<Rightarrow> bool" where
  "undisturbed db tid =
     (case getWalletTransaction db tid of
        None \<Rightarrow> False
      | Some t \<Rightarrow>
          balanceOf db (customerId t) = Some (balanceBefore t)
          \<and> \<not> list_ex (\<lambda>u. customerId u = customerId t \<and> status u = Completed)
                (laterTransactions db tid))"

fun admissible :: "WalletOp \<Rightarrow> MemoryDatabase \<Rightarrow> bool" where
  "admissible (DebitOp env cid amt descr opts) db = freshEnv env db"
| "admissible (CreditOp env cid amt descr opts) db = freshEnv env db"
| "admissible (ReserveOp env cid amt descr code) db = freshEnv env db"
| "admissible (CompleteOp env tid) db = undisturbed db tid"

fun admissibleRun :: "WalletOp list \<Rightarrow> MemoryDatabase \<Rightarrow> bool" where
  "admissibleRun [] db = True"
| "admissibleRun (op # ops) db =
     (admissible op db \<and>
      (case applyOp op db of None \<Rightarrow> False | Some db' \<Rightarrow> admissibleRun ops db'))"

definition creationOrdered :: "MemoryDatabase \<Rightarrow> bool" where
  "creationOrdered db = sorted (map (\<lambda>kv. createdAt (snd kv)) (walletTransactions db))"

text \<open>The completed transactions of an account, in the order the store holds them.\<close>

definition completedOf :: "string \<Rightarrow> (string \<times> WalletTransaction) list \<Rightarrow> WalletTransaction list" where
  "completedOf cid xs = filter (\<lambda>t. customerId t = cid \<and> status t = Completed) (map snd xs)"

section \<open>A small store and environment, for concrete runs\<close>

definition exampleDb :: MemoryDatabase where
  "exampleDb = \<lparr> customers = [(''c1'', \<lparr> walletBalance = 1000, updatedAt = 0 \<rparr>)],
                  walletTransactions = [] \<rparr>"

definition exampleEnv :: "nat \<Rightarrow> string \<Rightarrow> Env" where
  "exampleEnv t r = \<lparr> nowT = t, randomId = r, timestamp36 = ''t'', random36 = r \<rparr>"

definition refOpts :: "string \<Rightarrow> DebitOptions" where
  "refOpts r = \<lparr> do_reference = Some r, do_serviceCode = None, do_usageRecordId = None,
                do_metadata = None \<rparr>"

definition creditRefOpts :: "string \<Rightarrow> CreditOptions" where
  "creditRefOpts r = \<lparr> co_reference = Some r, co_paymentMethod = None, co_metadata = None \<rparr>"

text \<open>
  Two runs on the small store: a reservation completed after a debit has come in between,
  and a reservation completed at once, followed by a debit and a credit.
\<close>

definition reserveDebitComplete :: "WalletOp list" where
  "reserveDebitComplete =
     [ReserveOp (exampleEnv 10 ''a'') ''c1'' 500 ''hold'' None,
      DebitOp (exampleEnv 20 ''b'') ''c1'' 100 ''d'' (refOpts ''R''),
      CompleteOp (exampleEnv 30 ''c'') (newTxnId (exampleEnv 10 ''a''))]"

definition reserveCompleteDebitCredit :: "WalletOp list" where
  "reserveCompleteDebitCredit =
     [ReserveOp (exampleEnv 10 ''a'') ''c1'' 500 ''hold'' None,
      CompleteOp (exampleEnv 20 ''b'') (newTxnId (exampleEnv 10 ''a'')),
      DebitOp (exampleEnv 30 ''c'') ''c1'' 100 ''d'' (refOpts ''R''),
      CreditOp (exampleEnv 40 ''d'') ''c1'' 50 ''topup'' (creditRefOpts ''S'')]"

definition exampleRequest :: "int \<Rightarrow> Request" where
  "exampleRequest st =
     \<lparr> walletContext = Some \<lparr> serviceCode = ''name-search'', priceKobo = 100,
                              wc_balanceBefore = 1000, charged = False,
                              transactionId = None, chargeError = None \<rparr>,
       customer = Some ''c1'', originalUrl = ''/api/v1/business/name-search'',
       httpMethod = ''POST'', requestId = None, statusCode = st, hasCharged = False,
       database = exampleDb, events = [] \<rparr>"

section \<open>What each ledger operation returns\<close>

lemma debit_cases:
  assumes "getCustomer db cid = Some cust"
  shows "debit env db cid amt descr opts =
     (if walletBalance cust < amt
      then (Inl (InsufficientBalanceError amt (walletBalance cust) (amt - walletBalance cust)), db)
      else if getWalletTransactionByReference db (debitReference env opts) \<noteq> None
      then (Inl (DuplicateTransactionError (debitReference env opts)), db)
      else (Inr \<lparr> success = True, transaction = debitTxn env cid (walletBalance cust) amt descr opts,
                   newBalance = formatBalance cid (walletBalance cust - amt) \<rparr>,
            \<lparr> customers = AList.update cid (cust\<lparr>walletBalance := walletBalance cust - amt, updatedAt := nowT env\<rparr>) (customers db),
              walletTransactions = AList.update (newTxnId env) (debitTxn env cid (walletBalance cust) amt descr opts) (walletTransactions db) \<rparr>))"
  using assms
  by (auto simp: debit_def Let_def newInsufficientBalanceError_def getCustomer_def debitTxn_def
       updateCustomer_def createWalletTransaction_def split: option.splits prod.splits)

lemma debit_no_customer:
  "getCustomer db cid = None \<Longrightarrow> debit env db cid amt descr opts = (Inl (WalletNotFoundError cid), db)"
  by (simp add: debit_def)

lemma credit_cases:
  assumes "getCustomer db cid = Some cust"
  shows "credit env db cid amt descr opts =
     (if getWalletTransactionByReference db (creditReference env opts) \<noteq> None
      then (Inl (DuplicateTransactionError (creditReference env opts)), db)
      else (Inr \<lparr> success = True, transaction = creditTxn env cid (walletBalance cust) amt descr opts,
                   newBalance = formatBalance cid (walletBalance cust + amt) \<rparr>,
            \<lparr> customers = AList.update cid (cust\<lparr>walletBalance := walletBalance cust + amt, updatedAt := nowT env\<rparr>) (customers db),
              walletTransactions = AList.update (newTxnId env) (creditTxn env cid (walletBalance cust) amt descr opts) (walletTransactions db) \<rparr>))"
  using assms
  by (auto simp: credit_def Let_def getCustomer_def creditTxn_def
       updateCustomer_def createWalletTransaction_def split: option.splits prod.splits)

lemma credit_no_customer:
  "getCustomer db cid = None \<Longrightarrow> credit env db cid amt descr opts = (Inl (WalletNotFoundError cid), db)"
  by (simp add: credit_def)

lemma reserveBalance_cases:
  assumes "getCustomer db cid = Some cust"
  shows "reserveBalance env db cid amt descr code =
     (if walletBalance cust < amt
      then (Inl (InsufficientBalanceError amt (walletBalance cust) (amt - walletBalance cust)), db)
      else (Inr (reserveTxn env cid (walletBalance cust) amt descr code),
            \<lparr> customers = customers db,
              walletTransactions = AList.update (newTxnId env) (reserveTxn env cid (walletBalance cust) amt descr code) (walletTransactions db) \<rparr>))"
  using assms
  by (auto simp: reserveBalance_def Let_def newInsufficientBalanceError_def reserveTxn_def
       createWalletTransaction_def split: option.splits prod.splits)

lemma completeReservation_cases:
  assumes "getWalletTransaction db tid = Some t"
  shows "completeReservation env db tid =
     (if status t \<noteq> Pending
      then (Inl (Error ''InvalidTransactionStatusError'' ''Transaction is not in pending status''), db)
      else case getCustomer db (customerId t) of
        None \<Rightarrow> (Inl (Error ''Error'' ''CUSTOMER_NOT_FOUND''), db)
      | Some cust \<Rightarrow>
         (Inr \<lparr> success = True, transaction = t\<lparr>status := Completed, completedAt := Some (nowT env)\<rparr>,
                newBalance = formatBalance (customerId t) (balanceAfter t) \<rparr>,
          \<lparr> customers = AList.update (customerId t) (cust\<lparr>walletBalance := balanceAfter t, updatedAt := nowT env\<rparr>) (customers db),
            walletTransactions = AList.update tid (t\<lparr>status := Completed, completedAt := Some (nowT env)\<rparr>) (walletTransactions db) \<rparr>))"
  using assms
  by (auto simp: completeReservation_def Let_def getCustomer_def getWalletTransaction_def
       updateCustomer_def updateWalletTransactionStatus_def split: option.splits prod.splits)

lemma cancelReservation_cases:
  assumes "getWalletTransaction db tid = Some t"
  shows "cancelReservation env db tid =
     (if status t \<noteq> Pending
      then (Inl (Error ''InvalidTransactionStatusError'' ''Transaction is not in pending status''), db)
      else (Inr (),
          \<lparr> customers = customers db,
            walletTransactions = AList.update tid (t\<lparr>status := Failed\<rparr>) (walletTransactions db) \<rparr>))"
  using assms
  by (auto simp: cancelReservation_def Let_def getWalletTransaction_def
       updateWalletTransactionStatus_def split: option.splits prod.splits)

lemma balanceOf_update [simp]:
  "balanceOf \<lparr> customers = AList.update cid c cs, walletTransactions = ts \<rparr> cid' =
     (if cid' = cid then Some (walletBalance c) else map_option walletBalance (map_of cs cid'))"
  by (simp add: balanceOf_def getCustomer_def update_conv')

lemma getCustomer_update [simp]:
  "getCustomer \<lparr> customers = AList.update cid c cs, walletTransactions = ts \<rparr> cid' =
     (if cid' = cid then Some c else map_of cs cid')"
  by (simp add: getCustomer_def update_conv')

lemma getCustomer_txns [simp]:
  "getCustomer \<lparr> customers = customers db, walletTransactions = ts \<rparr> cid = getCustomer db cid"
  by (simp add: getCustomer_def)

lemma balanceOf_txns [simp]:
  "balanceOf \<lparr> customers = customers db, walletTransactions = ts \<rparr> cid = balanceOf db cid"
  by (simp add: balanceOf_def)

lemma getWalletTransaction_update [simp]:
  "getWalletTransaction \<lparr> customers = cs, walletTransactions = AList.update tid t ts \<rparr> tid' =
     (if tid' = tid then Some t else map_of ts tid')"
  by (simp add: getWalletTransaction_def update_conv')

lemma statusOf_update [simp]:
  "statusOf \<lparr> customers = cs, walletTransactions = AList.update tid t ts \<rparr> tid' =
     (if tid' = tid then Some (status t) else map_option status (map_of ts tid'))"
  by (simp add: statusOf_def)

lemma find_update_reference:
  "P v \<Longrightarrow> find P (map snd (AList.update k v xs)) \<noteq> None"
  by (induction xs) (auto)

lemma byReference_update:
  "reference t = r \<Longrightarrow>
   getWalletTransactionByReference \<lparr> customers = cs, walletTransactions = AList.update tid t ts \<rparr> r \<noteq> None"
  using find_update_reference[of "\<lambda>txn. reference txn = r" t tid ts]
  by (simp add: getWalletTransactionByReference_def)

section \<open>Debit and the affordability check\<close>

text \<open>
  C2. For an existing account, \<open>debit\<close> fails with \<open>InsufficientBalanceError\<close> exactly when
  the amount exceeds the stored balance. The error carries the amount required, the current
  balance and their difference as shortfall, and the store comes back as it was: no
  transaction record is written and the balance is unchanged. A debit of exactly the balance
  (under a reference not yet used) succeeds and leaves balance 0; a debit of the balance
  plus one fails with shortfall 1.
\<close>

theorem debit_insufficient_balance:
  assumes "getCustomer db cid = Some cust"
  shows "(walletBalance cust < amt \<longrightarrow>
            debit env db cid amt descr opts =
              (Inl (InsufficientBalanceError amt (walletBalance cust) (amt - walletBalance cust)), db))
       \<and> (\<not> walletBalance cust < amt \<longrightarrow>
            (\<forall>r c s. fst (debit env db cid amt descr opts) \<noteq> Inl (InsufficientBalanceError r c s)))
       \<and> (getWalletTransactionByReference db (debitReference env opts) = None \<longrightarrow>
            (\<exists>res db'. debit env db cid (walletBalance cust) descr opts = (Inr res, db')
                      \<and> balanceOf db' cid = Some 0))
       \<and> debit env db cid (walletBalance cust + 1) descr opts =
            (Inl (InsufficientBalanceError (walletBalance cust + 1) (walletBalance cust) 1), db)"
  by (simp add: debit_cases[OF assms])

theorem debit_insufficient_balance_witness:
  "debit (exampleEnv 1 ''a'') exampleDb ''c1'' 1500 ''d'' (refOpts ''R'') =
      (Inl (InsufficientBalanceError 1500 1000 500), exampleDb)
   \<and> (\<forall>r c s. fst (debit (exampleEnv 1 ''a'') exampleDb ''c1'' 400 ''d'' (refOpts ''R''))
          \<noteq> Inl (InsufficientBalanceError r c s))
   \<and> (\<exists>res db'. debit (exampleEnv 1 ''a'') exampleDb ''c1'' 1000 ''d'' (refOpts ''R'') = (Inr res, db')
          \<and> balanceOf db' ''c1'' = Some 0)
   \<and> debit (exampleEnv 1 ''a'') exampleDb ''c1'' 1001 ''d'' (refOpts ''R'') =
      (Inl (InsufficientBalanceError 1001 1000 1), exampleDb)"
proof -
  have c: "getCustomer exampleDb ''c1'' = Some \<lparr> walletBalance = 1000, updatedAt = 0 \<rparr>"
    by (simp add: getCustomer_def exampleDb_def)
  have r: "getWalletTransactionByReference exampleDb
             (debitReference (exampleEnv 1 ''a'') (refOpts ''R'')) = None"
    by (simp add: getWalletTransactionByReference_def exampleDb_def)
  show ?thesis
    using debit_insufficient_balance[OF c, of 1500 "exampleEnv 1 ''a''" "''d''" "refOpts ''R''"]
          debit_insufficient_balance[OF c, of 400 "exampleEnv 1 ''a''" "''d''" "refOpts ''R''"] r
    by simp
qed

section \<open>Successful calls, read backwards\<close>

lemma reserveBalance_success:
  assumes "getCustomer db cid = Some cust"
    and "reserveBalance env db cid amt descr code = (Inr t, db1)"
  shows "amt \<le> walletBalance cust"
    and "t = reserveTxn env cid (walletBalance cust) amt descr code"
    and "db1 = \<lparr> customers = customers db,
                 walletTransactions = AList.update (newTxnId env) t (walletTransactions db) \<rparr>"
  using assms(2) by (auto simp: reserveBalance_cases[OF assms(1)] split: if_splits)

lemma credit_success:
  assumes "getCustomer db cid = Some cust"
    and "credit env db cid amt descr opts = (Inr r, db')"
  shows "getWalletTransactionByReference db (creditReference env opts) = None"
    and "transaction r = creditTxn env cid (walletBalance cust) amt descr opts"
    and "db' = \<lparr> customers = AList.update cid (cust\<lparr>walletBalance := walletBalance cust + amt, updatedAt := nowT env\<rparr>) (customers db),
                 walletTransactions = AList.update (newTxnId env) (transaction r) (walletTransactions db) \<rparr>"
  using assms(2) by (auto simp: credit_cases[OF assms(1)] split: if_splits)

lemma debit_success:
  assumes "getCustomer db cid = Some cust"
    and "debit env db cid amt descr opts = (Inr r, db')"
  shows "amt \<le> walletBalance cust"
    and "getWalletTransactionByReference db (debitReference env opts) = None"
    and "transaction r = debitTxn env cid (walletBalance cust) amt descr opts"
    and "db' = \<lparr> customers = AList.update cid (cust\<lparr>walletBalance := walletBalance cust - amt, updatedAt := nowT env\<rparr>) (customers db),
                 walletTransactions = AList.update (newTxnId env) (transaction r) (walletTransactions db) \<rparr>"
  using assms(2) by (auto simp: debit_cases[OF assms(1)] split: if_splits)

lemma completeReservation_writes_snapshot:
  assumes "getWalletTransaction db tid = Some t" and "status t = Pending"
    and "getCustomer db (customerId t) = Some cust"
  shows "\<exists>res db'. completeReservation env db tid = (Inr res, db')
            \<and> balanceOf db' (customerId t) = Some (balanceAfter t)
            \<and> balanceKobo (newBalance res) = balanceAfter t"
  using assms by (simp add: completeReservation_cases[OF assms(1)] formatBalance_def)

lemma exampleReference_a: "generateReference (exampleEnv t ''a'') DebitT None = ''TXN_DR_T_A''"
  by code_simp

section \<open>Amounts are not checked for their sign\<close>

text \<open>
  C10. Neither \<open>debit\<close> nor \<open>credit\<close> checks that the amount is positive. On an existing
  account and under a reference not yet used, \<open>credit\<close> succeeds for every amount and stores
  balance plus amount, so a negative amount lowers the balance with no affordability check;
  \<open>debit\<close> succeeds for every amount not above the balance, zero and negative ones included,
  and stores balance minus amount, so a negative amount raises the balance. Either way a
  completed transaction is recorded whose \<open>balanceAfter\<close> is \<open>balanceBefore\<close> plus
  (credit) or minus (debit) the signed amount.
\<close>

theorem unvalidated_amount_sign:
  assumes "getCustomer db cid = Some cust"
  shows "(getWalletTransactionByReference db (creditReference env copts) = None \<longrightarrow>
            (\<exists>res db'. credit env db cid amt descr copts = (Inr res, db')
               \<and> balanceOf db' cid = Some (walletBalance cust + amt)
               \<and> (amt < 0 \<longrightarrow> (\<exists>b'. balanceOf db' cid = Some b' \<and> b' < walletBalance cust))
               \<and> getWalletTransaction db' (txnId (transaction res)) = Some (transaction res)
               \<and> status (transaction res) = Completed
               \<and> amount (transaction res) = amt
               \<and> balanceBefore (transaction res) = walletBalance cust
               \<and> balanceAfter (transaction res) = walletBalance cust + amt))
       \<and> (getWalletTransactionByReference db (debitReference env dopts) = None
            \<and> amt \<le> walletBalance cust \<longrightarrow>
            (\<exists>res db'. debit env db cid amt descr dopts = (Inr res, db')
               \<and> balanceOf db' cid = Some (walletBalance cust - amt)
               \<and> (amt < 0 \<longrightarrow> (\<exists>b'. balanceOf db' cid = Some b' \<and> walletBalance cust < b'))
               \<and> getWalletTransaction db' (txnId (transaction res)) = Some (transaction res)
               \<and> status (transaction res) = Completed
               \<and> amount (transaction res) = amt
               \<and> balanceBefore (transaction res) = walletBalance cust
               \<and> balanceAfter (transaction res) = walletBalance cust - amt))"
proof -
  have b: "balanceOf db cid = Some (walletBalance cust)"
    using assms by (simp add: balanceOf_def)
  show ?thesis
    by (simp add: debit_cases[OF assms] credit_cases[OF assms] b debitTxn_def creditTxn_def)
qed

theorem unvalidated_amount_sign_witness:
  "(\<exists>res db'. credit (exampleEnv 1 ''a'') exampleDb ''c1'' (- 1500) ''d'' (creditRefOpts ''R'') = (Inr res, db')
      \<and> balanceOf db' ''c1'' = Some (- 500) \<and> status (transaction res) = Completed
      \<and> balanceAfter (transaction res) = - 500)
   \<and> (\<exists>res db'. debit (exampleEnv 1 ''a'') exampleDb ''c1'' (- 200) ''d'' (refOpts ''R'') = (Inr res, db')
      \<and> balanceOf db' ''c1'' = Some 1200 \<and> status (transaction res) = Completed
      \<and> balanceAfter (transaction res) = 1200)"
proof -
  have c: "getCustomer exampleDb ''c1'' = Some \<lparr> walletBalance = 1000, updatedAt = 0 \<rparr>"
    by (simp add: getCustomer_def exampleDb_def)
  have r: "getWalletTransactionByReference exampleDb x = None" for x
    by (simp add: getWalletTransactionByReference_def exampleDb_def)
  show ?thesis
    using unvalidated_amount_sign[OF c, where env="exampleEnv 1 ''a''" and copts="creditRefOpts ''R''" and amt="- 1500" and descr="''d''" and dopts="refOpts ''R''"]
          unvalidated_amount_sign[OF c, where env="exampleEnv 1 ''a''" and copts="creditRefOpts ''R''" and amt="- 200" and descr="''d''" and dopts="refOpts ''R''"] r
    by auto
qed

section \<open>Reservations\<close>

text \<open>
  C6. On an account whose balance covers the amount, \<open>reserveBalance\<close> stores a pending
  transaction whose \<open>balanceAfter\<close> is balance minus amount and leaves the customers,
  hence the stored balance, as they were. Cancelling it right away leaves the balance
  unchanged and sets the status to failed; completing it right away sets the balance to
  balance minus amount and the status to completed.
\<close>

theorem reservation_round_trip:
  assumes "getCustomer db cid = Some cust" and "amt \<le> walletBalance cust"
  shows "\<exists>t db1. reserveBalance env db cid amt descr code = (Inr t, db1)
           \<and> getWalletTransaction db1 (txnId t) = Some t
           \<and> status t = Pending
           \<and> balanceBefore t = walletBalance cust
           \<and> balanceAfter t = walletBalance cust - amt
           \<and> customers db1 = customers db
           \<and> (\<exists>db2. cancelReservation env2 db1 (txnId t) = (Inr (), db2)
                 \<and> balanceOf db2 cid = Some (walletBalance cust)
                 \<and> statusOf db2 (txnId t) = Some Failed)
           \<and> (\<exists>res db2. completeReservation env2 db1 (txnId t) = (Inr res, db2)
                 \<and> balanceOf db2 cid = Some (walletBalance cust - amt)
                 \<and> statusOf db2 (txnId t) = Some Completed)"
proof -
  let ?t = "reserveTxn env cid (walletBalance cust) amt descr code"
  let ?db1 = "\<lparr> customers = customers db,
              walletTransactions = AList.update (newTxnId env) ?t (walletTransactions db) \<rparr>"
  have r: "reserveBalance env db cid amt descr code = (Inr ?t, ?db1)"
    using assms by (simp add: reserveBalance_cases[OF assms(1)])
  have id: "txnId ?t = newTxnId env" by (simp add: reserveTxn_def)
  have g: "getWalletTransaction ?db1 (txnId ?t) = Some ?t"
    by (simp add: id)
  have c1: "getCustomer ?db1 (customerId ?t) = Some cust"
    using assms by (simp add: reserveTxn_def)
  have b: "balanceOf db cid = Some (walletBalance cust)"
    using assms by (simp add: balanceOf_def)
  have st: "status ?t = Pending" "balanceBefore ?t = walletBalance cust"
      "balanceAfter ?t = walletBalance cust - amt" "customerId ?t = cid"
    by (simp_all add: reserveTxn_def)
  have cancel: "\<exists>db2. cancelReservation env2 ?db1 (txnId ?t) = (Inr (), db2)
                 \<and> balanceOf db2 cid = Some (walletBalance cust)
                 \<and> statusOf db2 (txnId ?t) = Some Failed"
    by (simp add: cancelReservation_cases[OF g] st b)
  have complete: "\<exists>res db2. completeReservation env2 ?db1 (txnId ?t) = (Inr res, db2)
                 \<and> balanceOf db2 cid = Some (walletBalance cust - amt)
                 \<and> statusOf db2 (txnId ?t) = Some Completed"
    using c1 by (simp add: completeReservation_cases[OF g] st)
  show ?thesis
    using r g st cancel complete by simp
qed


theorem reservation_round_trip_witness:
  "\<exists>t db1. reserveBalance (exampleEnv 1 ''a'') exampleDb ''c1'' 500 ''hold'' None = (Inr t, db1)
      \<and> status t = Pending \<and> balanceBefore t = 1000 \<and> balanceAfter t = 500
      \<and> balanceOf db1 ''c1'' = Some 1000
      \<and> (\<exists>db2. cancelReservation (exampleEnv 2 ''b'') db1 (txnId t) = (Inr (), db2)
             \<and> balanceOf db2 ''c1'' = Some 1000 \<and> statusOf db2 (txnId t) = Some Failed)
      \<and> (\<exists>res db2. completeReservation (exampleEnv 2 ''b'') db1 (txnId t) = (Inr res, db2)
             \<and> balanceOf db2 ''c1'' = Some 500 \<and> statusOf db2 (txnId t) = Some Completed)"
proof -
  have c: "getCustomer exampleDb ''c1'' = Some \<lparr> walletBalance = 1000, updatedAt = 0 \<rparr>"
    by (simp add: getCustomer_def exampleDb_def)
  have a: "(500::int) \<le> walletBalance \<lparr> walletBalance = 1000, updatedAt = 0 \<rparr>"
    by simp
  have b: "customers db1 = customers exampleDb \<Longrightarrow> balanceOf db1 ''c1'' = Some 1000" for db1
    by (simp add: balanceOf_def getCustomer_def exampleDb_def)
  show ?thesis
    using reservation_round_trip[OF c a, of "exampleEnv 1 ''a''" "''hold''" None "exampleEnv 2 ''b''"] b
    by auto
qed

text \<open>
  C9. \<open>completeReservation\<close> stores the \<open>balanceAfter\<close> that \<open>reserveBalance\<close> computed and
  never reads the account's current balance. A credit or a debit that succeeds on the
  account between the two calls changes the stored balance, and the completion then
  overwrites it: the balance afterwards is the balance at reservation time minus the
  reserved amount, whatever happened in between.
\<close>

theorem completeReservation_overwrites:
  assumes cust: "getCustomer db cid = Some cust"
    and res: "reserveBalance env db cid amt descr code = (Inr t, db1)"
    and ids: "newTxnId env2 \<noteq> newTxnId env"
  shows "(credit env2 db1 cid x descr2 copts = (Inr r2, db2) \<longrightarrow>
            balanceOf db2 cid = Some (walletBalance cust + x)
            \<and> (\<exists>r3 db3. completeReservation env3 db2 (txnId t) = (Inr r3, db3)
                  \<and> balanceOf db3 cid = Some (walletBalance cust - amt)))
       \<and> (debit env2 db1 cid x descr2 dopts = (Inr r2, db2) \<longrightarrow>
            balanceOf db2 cid = Some (walletBalance cust - x)
            \<and> (\<exists>r3 db3. completeReservation env3 db2 (txnId t) = (Inr r3, db3)
                  \<and> balanceOf db3 cid = Some (walletBalance cust - amt)))
       \<and> (\<exists>r3 db3. completeReservation env3 db1 (txnId t) = (Inr r3, db3)
                  \<and> balanceOf db3 cid = Some (balanceAfter t))
       \<and> balanceAfter t = walletBalance cust - amt"
proof -
  note r = reserveBalance_success[OF cust res]
  have t: "txnId t = newTxnId env" "status t = Pending" "customerId t = cid"
      "balanceAfter t = walletBalance cust - amt"
    by (simp_all add: r(2) reserveTxn_def)
  have c1: "getCustomer db1 cid = Some cust"
    using cust by (simp add: r(3))
  have g1: "getWalletTransaction db1 (txnId t) = Some t"
    by (simp add: r(3) t(1))
  have keep: "getWalletTransaction
        \<lparr> customers = cs, walletTransactions = AList.update (newTxnId env2) u (walletTransactions db1) \<rparr>
        (txnId t) = Some t" for cs u
    using ids g1 by (simp add: t(1) getWalletTransaction_def update_conv')
  have direct: "\<exists>r3 db3. completeReservation env3 db1 (txnId t) = (Inr r3, db3)
                  \<and> balanceOf db3 cid = Some (balanceAfter t)"
    using completeReservation_writes_snapshot[OF g1 t(2), of cust env3] c1 by (auto simp: t(3))
  have viaCredit: "balanceOf db2 cid = Some (walletBalance cust + x)
            \<and> (\<exists>r3 db3. completeReservation env3 db2 (txnId t) = (Inr r3, db3)
                  \<and> balanceOf db3 cid = Some (walletBalance cust - amt))"
    if c: "credit env2 db1 cid x descr2 copts = (Inr r2, db2)"
  proof -
    note s = credit_success[OF c1 c]
    have g2: "getWalletTransaction db2 (txnId t) = Some t"
      unfolding s(3) by (rule keep)
    have c2: "getCustomer db2 (customerId t) = Some (cust\<lparr>walletBalance := walletBalance cust + x, updatedAt := nowT env2\<rparr>)"
      by (simp add: s(3) t(3))
    have "balanceOf db2 cid = Some (walletBalance cust + x)"
      by (simp add: s(3))
    then show ?thesis
      using completeReservation_writes_snapshot[OF g2 t(2) c2, of env3] by (auto simp: t)
  qed
  have viaDebit: "balanceOf db2 cid = Some (walletBalance cust - x)
            \<and> (\<exists>r3 db3. completeReservation env3 db2 (txnId t) = (Inr r3, db3)
                  \<and> balanceOf db3 cid = Some (walletBalance cust - amt))"
    if d: "debit env2 db1 cid x descr2 dopts = (Inr r2, db2)"
  proof -
    note s = debit_success[OF c1 d]
    have g2: "getWalletTransaction db2 (txnId t) = Some t"
      unfolding s(4) by (rule keep)
    have c2: "getCustomer db2 (customerId t) = Some (cust\<lparr>walletBalance := walletBalance cust - x, updatedAt := nowT env2\<rparr>)"
      by (simp add: s(4) t(3))
    have "balanceOf db2 cid = Some (walletBalance cust - x)"
      by (simp add: s(4))
    then show ?thesis
      using completeReservation_writes_snapshot[OF g2 t(2) c2, of env3] by (auto simp: t)
  qed
  show ?thesis
    using viaCredit viaDebit direct t(4) by blast
qed

theorem completeReservation_overwrites_witness:
  "\<exists>t db1 r2 db2 r3 db3.
      reserveBalance (exampleEnv 1 ''a'') exampleDb ''c1'' 500 ''hold'' None = (Inr t, db1)
    \<and> credit (exampleEnv 2 ''b'') db1 ''c1'' 300 ''topup'' (creditRefOpts ''R'') = (Inr r2, db2)
    \<and> balanceOf db2 ''c1'' = Some 1300
    \<and> completeReservation (exampleEnv 3 ''c'') db2 (txnId t) = (Inr r3, db3)
    \<and> balanceOf db3 ''c1'' = Some 500"
proof -
  let ?cust = "\<lparr> walletBalance = 1000, updatedAt = 0 \<rparr>"
  have c: "getCustomer exampleDb ''c1'' = Some ?cust"
    by (simp add: getCustomer_def exampleDb_def)
  obtain t db1 where res:
      "reserveBalance (exampleEnv 1 ''a'') exampleDb ''c1'' 500 ''hold'' None = (Inr t, db1)"
    by (simp add: reserveBalance_cases[OF c])
  note r = reserveBalance_success[OF c res]
  have ids: "newTxnId (exampleEnv 2 ''b'') \<noteq> newTxnId (exampleEnv 1 ''a'')"
    by (simp add: newTxnId_def exampleEnv_def)
  have c1: "getCustomer db1 ''c1'' = Some ?cust"
    using c by (simp add: r(3))
  have ref: "getWalletTransactionByReference db1
               (creditReference (exampleEnv 2 ''b'') (creditRefOpts ''R'')) = None"
    by (simp add: r(3) r(2) getWalletTransactionByReference_def exampleDb_def reserveTxn_def
          creditRefOpts_def orElse_def exampleReference_a)
  obtain r2 db2 where cr:
      "credit (exampleEnv 2 ''b'') db1 ''c1'' 300 ''topup'' (creditRefOpts ''R'') = (Inr r2, db2)"
    using ref by (simp add: credit_cases[OF c1])
  show ?thesis
    using completeReservation_overwrites[OF c res ids,
            where x = 300 and ?descr2.0 = "''topup''" and copts = "creditRefOpts ''R''"
              and ?r2.0 = r2 and ?db2.0 = db2 and ?env3.0 = "exampleEnv 3 ''c''"]
          res cr
    by auto
qed

section \<open>Refunds\<close>

lemma refund_cases:
  assumes "getWalletTransaction db tid = Some t"
  shows "refund env db tid reason =
     (if txnType t \<noteq> DebitT
      then (Inl (Error ''InvalidTransactionError'' ''Invalid transaction type for refund''), db)
      else if status t = Reversed
      then (Inl (Error ''DuplicateRefundError'' ''Transaction already refunded''), db)
      else case credit env db (customerId t) (amount t) (''Refund: '' @ reason)
                    \<lparr> co_reference = None, co_paymentMethod = Some Refund,
                      co_metadata = Some [(''originalTransactionId'', MStr tid),
                                          (''refundReason'', MStr reason)] \<rparr> of
               (Inl e, db1) \<Rightarrow> (Inl e, db1)
             | (Inr result, db1) \<Rightarrow>
                 (case updateWalletTransactionStatus env db1 tid Reversed None of
                    (Inl e, db2) \<Rightarrow> (Inl e, db2)
                  | (Inr _, db2) \<Rightarrow> (Inr result, db2)))"
  using assms by (simp add: refund_def)

lemma refund_debit:
  assumes t: "getWalletTransaction db tid = Some t" "txnType t = DebitT" "status t \<noteq> Reversed"
    and cust: "getCustomer db (customerId t) = Some cust"
    and ref: "getWalletTransactionByReference db (generateReference env CreditT None) = None"
  shows "\<exists>res db'. refund env db tid reason = (Inr res, db')
           \<and> balanceOf db' (customerId t) = Some (walletBalance cust + amount t)
           \<and> statusOf db' tid = Some Reversed
           \<and> (newTxnId env \<noteq> tid \<longrightarrow>
                 getWalletTransaction db' tid = Some (t\<lparr>status := Reversed\<rparr>))"
  using t(2,3) ref
  by (simp add: refund_cases[OF t(1)] credit_cases[OF cust] orElse_def
        updateWalletTransactionStatus_def update_conv' t(1)[unfolded getWalletTransaction_def]
        statusOf_def getWalletTransaction_def balanceOf_def getCustomer_def Let_def)

lemma exampleReference_credit_b:
  "generateReference (exampleEnv t ''b'') CreditT None = ''TXN_CR_T_B''"
  by code_simp

text \<open>
  C5. Let \<open>T\<close> be a completed debit transaction of amount \<open>a\<close> whose account exists, and
  let the reference that \<open>refund\<close> generates for its credit be unused. Then
  \<open>refund(T.id, reason)\<close> succeeds, raises the account's balance by exactly \<open>a\<close> and sets
  \<open>T\<close>'s status to reversed; a second refund of \<open>T\<close> fails with \<open>DuplicateRefundError\<close>
  (the credit's new identifier being different from \<open>T\<close>'s). A refund of a transaction
  that is not a debit fails with \<open>InvalidTransactionError\<close>, and a refund of an unknown
  identifier with \<open>TransactionNotFoundError\<close>; both leave the store as it was. A debit
  followed by the refund of its transaction restores the balance before the debit.
\<close>

theorem refund_round_trip:
  "(getWalletTransaction db tid = Some t \<and> txnType t = DebitT \<and> status t = Completed
      \<and> getCustomer db (customerId t) = Some cust
      \<and> getWalletTransactionByReference db (generateReference env CreditT None) = None
      \<longrightarrow> (\<exists>res db'. refund env db tid reason = (Inr res, db')
              \<and> balanceOf db' (customerId t) = Some (walletBalance cust + amount t)
              \<and> statusOf db' tid = Some Reversed
              \<and> (newTxnId env \<noteq> tid \<longrightarrow>
                    refund env2 db' tid reason2 =
                      (Inl (Error ''DuplicateRefundError'' ''Transaction already refunded''), db'))))
   \<and> (getWalletTransaction db tid = Some t \<and> txnType t \<noteq> DebitT
      \<longrightarrow> refund env db tid reason =
            (Inl (Error ''InvalidTransactionError'' ''Invalid transaction type for refund''), db))
   \<and> (getWalletTransaction db tid = None
      \<longrightarrow> refund env db tid reason =
            (Inl (Error ''TransactionNotFoundError'' ''Transaction not found''), db))
   \<and> (getCustomer db0 cid = Some cust0
      \<and> debit env0 db0 cid amt descr opts = (Inr r0, db)
      \<and> getWalletTransactionByReference db (generateReference env CreditT None) = None
      \<longrightarrow> (\<exists>res db'. refund env db (txnId (transaction r0)) reason = (Inr res, db')
              \<and> balanceOf db' cid = balanceOf db0 cid
              \<and> statusOf db' (txnId (transaction r0)) = Some Reversed))"
proof -
  have A: "\<exists>res db'. refund env db tid reason = (Inr res, db')
              \<and> balanceOf db' (customerId t) = Some (walletBalance cust + amount t)
              \<and> statusOf db' tid = Some Reversed
              \<and> (newTxnId env \<noteq> tid \<longrightarrow>
                    refund env2 db' tid reason2 =
                      (Inl (Error ''DuplicateRefundError'' ''Transaction already refunded''), db'))"
    if h: "getWalletTransaction db tid = Some t" "txnType t = DebitT" "status t = Completed"
      "getCustomer db (customerId t) = Some cust"
      "getWalletTransactionByReference db (generateReference env CreditT None) = None"
  proof -
    have ns: "status t \<noteq> Reversed" using h(3) by simp
    obtain res db' where r: "refund env db tid reason = (Inr res, db')"
        "balanceOf db' (customerId t) = Some (walletBalance cust + amount t)"
        "statusOf db' tid = Some Reversed"
        "newTxnId env \<noteq> tid \<longrightarrow> getWalletTransaction db' tid = Some (t\<lparr>status := Reversed\<rparr>)"
      using refund_debit[OF h(1) h(2) ns h(4) h(5), of reason] by blast
    have "refund env2 db' tid reason2 =
            (Inl (Error ''DuplicateRefundError'' ''Transaction already refunded''), db')"
      if "newTxnId env \<noteq> tid"
    proof -
      have g: "getWalletTransaction db' tid = Some (t\<lparr>status := Reversed\<rparr>)"
        using r(4) that by simp
      show ?thesis
        using h(2) by (simp add: refund_cases[OF g])
    qed
    then show ?thesis using r(1,2,3) by simp
  qed
  have B: "refund env db tid reason =
            (Inl (Error ''InvalidTransactionError'' ''Invalid transaction type for refund''), db)"
    if "getWalletTransaction db tid = Some t" "txnType t \<noteq> DebitT"
    using that(2) by (simp add: refund_cases[OF that(1)])
  have C: "refund env db tid reason =
            (Inl (Error ''TransactionNotFoundError'' ''Transaction not found''), db)"
    if "getWalletTransaction db tid = None"
    using that by (simp add: refund_def)
  have D: "\<exists>res db'. refund env db (txnId (transaction r0)) reason = (Inr res, db')
              \<and> balanceOf db' cid = balanceOf db0 cid
              \<and> statusOf db' (txnId (transaction r0)) = Some Reversed"
    if h: "getCustomer db0 cid = Some cust0" "debit env0 db0 cid amt descr opts = (Inr r0, db)"
      "getWalletTransactionByReference db (generateReference env CreditT None) = None"
  proof -
    note s = debit_success[OF h(1) h(2)]
    let ?T = "transaction r0"
    have T: "txnId ?T = newTxnId env0" "txnType ?T = DebitT" "status ?T \<noteq> Reversed"
        "customerId ?T = cid" "amount ?T = amt"
      by (simp_all add: s(3) debitTxn_def)
    have g: "getWalletTransaction db (txnId ?T) = Some ?T"
      by (simp add: s(4) T(1))
    have c: "getCustomer db (customerId ?T) =
               Some (cust0\<lparr>walletBalance := walletBalance cust0 - amt, updatedAt := nowT env0\<rparr>)"
      by (simp add: s(4) T(4))
    have b0: "balanceOf db0 cid = Some (walletBalance cust0)"
      using h(1) by (simp add: balanceOf_def)
    show ?thesis
      using refund_debit[OF g T(2) T(3) c h(3), of reason] by (auto simp: T b0)
  qed
  show ?thesis
    using A B C D by blast
qed

theorem refund_round_trip_witness:
  "(\<exists>r0 db1 res db2.
       debit (exampleEnv 10 ''a'') exampleDb ''c1'' 400 ''d'' (refOpts ''X'') = (Inr r0, db1)
     \<and> balanceOf db1 ''c1'' = Some 600
     \<and> refund (exampleEnv 20 ''b'') db1 (txnId (transaction r0)) ''why'' = (Inr res, db2)
     \<and> balanceOf db2 ''c1'' = Some 1000
     \<and> statusOf db2 (txnId (transaction r0)) = Some Reversed
     \<and> refund (exampleEnv 30 ''c'') db2 (txnId (transaction r0)) ''again'' =
          (Inl (Error ''DuplicateRefundError'' ''Transaction already refunded''), db2))
   \<and> (\<exists>rc dbc.
       credit (exampleEnv 10 ''a'') exampleDb ''c1'' 50 ''topup'' (creditRefOpts ''Y'') = (Inr rc, dbc)
     \<and> refund (exampleEnv 20 ''b'') dbc (txnId (transaction rc)) ''why'' =
          (Inl (Error ''InvalidTransactionError'' ''Invalid transaction type for refund''), dbc))
   \<and> refund (exampleEnv 20 ''b'') exampleDb ''txn_zz'' ''why'' =
        (Inl (Error ''TransactionNotFoundError'' ''Transaction not found''), exampleDb)"
proof -
  let ?cust = "\<lparr> walletBalance = 1000, updatedAt = 0 \<rparr>"
  let ?e1 = "exampleEnv 10 ''a''" and ?e2 = "exampleEnv 20 ''b''" and ?e3 = "exampleEnv 30 ''c''"
  have c: "getCustomer exampleDb ''c1'' = Some ?cust"
    by (simp add: getCustomer_def exampleDb_def)
  have none: "getWalletTransactionByReference exampleDb x = None" for x
    by (simp add: getWalletTransactionByReference_def exampleDb_def)
  \<comment> \<open>a debit, refunded once and then once more\<close>
  obtain r0 db1 where d: "debit ?e1 exampleDb ''c1'' 400 ''d'' (refOpts ''X'') = (Inr r0, db1)"
    by (simp add: debit_cases[OF c] none)
  note s = debit_success[OF c d]
  have T: "txnId (transaction r0) = newTxnId ?e1" "txnType (transaction r0) = DebitT"
      "status (transaction r0) = Completed" "customerId (transaction r0) = ''c1''"
      "amount (transaction r0) = 400" "reference (transaction r0) = ''X''"
    by (simp_all add: s(3) debitTxn_def refOpts_def orElse_def)
  have g: "getWalletTransaction db1 (txnId (transaction r0)) = Some (transaction r0)"
    by (simp add: s(4) T(1))
  have b1: "balanceOf db1 ''c1'' = Some 600"
    by (simp add: s(4))
  have ref: "getWalletTransactionByReference db1 (generateReference ?e2 CreditT None) = None"
    by (simp add: s(4) getWalletTransactionByReference_def exampleDb_def T(6)
          exampleReference_credit_b)
  have ids: "newTxnId ?e2 \<noteq> txnId (transaction r0)"
    by (simp add: T(1) newTxnId_def exampleEnv_def)
  have first: "\<exists>res db2.
       refund ?e2 db1 (txnId (transaction r0)) ''why'' = (Inr res, db2)
     \<and> balanceOf db2 ''c1'' = Some 1000
     \<and> statusOf db2 (txnId (transaction r0)) = Some Reversed
     \<and> refund ?e3 db2 (txnId (transaction r0)) ''again'' =
          (Inl (Error ''DuplicateRefundError'' ''Transaction already refunded''), db2)"
    using refund_round_trip[where db = db1 and tid = "txnId (transaction r0)"
            and t = "transaction r0" and env = ?e2 and reason = "''why''"
            and ?env2.0 = ?e3 and ?reason2.0 = "''again''"
            and cust = "?cust\<lparr>walletBalance := 600, updatedAt := nowT ?e1\<rparr>"]
          g T ref ids
    by (auto simp: s(4))
  \<comment> \<open>a credit cannot be refunded\<close>
  obtain rc dbc where cr:
      "credit ?e1 exampleDb ''c1'' 50 ''topup'' (creditRefOpts ''Y'') = (Inr rc, dbc)"
    by (simp add: credit_cases[OF c] none)
  note sc = credit_success[OF c cr]
  have gc: "getWalletTransaction dbc (txnId (transaction rc)) = Some (transaction rc)"
    by (simp add: sc(3) sc(2) creditTxn_def)
  have tc: "txnType (transaction rc) \<noteq> DebitT"
    by (simp add: sc(2) creditTxn_def)
  have second: "refund ?e2 dbc (txnId (transaction rc)) ''why'' =
          (Inl (Error ''InvalidTransactionError'' ''Invalid transaction type for refund''), dbc)"
    using refund_round_trip[where db = dbc and tid = "txnId (transaction rc)"
            and t = "transaction rc" and env = ?e2 and reason = "''why''"] gc tc
    by blast
  \<comment> \<open>an unknown transaction\<close>
  have gn: "getWalletTransaction exampleDb ''txn_zz'' = None"
    by (simp add: getWalletTransaction_def exampleDb_def)
  have third: "refund ?e2 exampleDb ''txn_zz'' ''why'' =
        (Inl (Error ''TransactionNotFoundError'' ''Transaction not found''), exampleDb)"
    using refund_round_trip[where db = exampleDb and tid = "''txn_zz''"
            and env = ?e2 and reason = "''why''"] gn
    by blast
  show ?thesis
    using d b1 first cr second third by blast
qed

section \<open>The duplicate-reference guard\<close>

lemma orElse_Some: "r \<noteq> [] \<Longrightarrow> orElse (Some r) g = r"
  by (simp add: orElse_def)

lemma exampleReference_debit_b:
  "generateReference (exampleEnv t ''b'') DebitT None = ''TXN_DR_T_B''"
  by code_simp

lemma example_first_debit:
  "debit (exampleEnv 10 ''a'') exampleDb ''c1'' amt ''d'' (refOpts r) =
     (if 1000 < amt then (Inl (InsufficientBalanceError amt 1000 (amt - 1000)), exampleDb)
      else (Inr \<lparr> success = True,
                  transaction = debitTxn (exampleEnv 10 ''a'') ''c1'' 1000 amt ''d'' (refOpts r),
                  newBalance = formatBalance ''c1'' (1000 - amt) \<rparr>,
            \<lparr> customers = [(''c1'', \<lparr> walletBalance = 1000 - amt, updatedAt = 10 \<rparr>)],
              walletTransactions =
                [(newTxnId (exampleEnv 10 ''a''),
                  debitTxn (exampleEnv 10 ''a'') ''c1'' 1000 amt ''d'' (refOpts r))] \<rparr>))"
proof -
  have c: "getCustomer exampleDb ''c1'' = Some \<lparr> walletBalance = 1000, updatedAt = 0 \<rparr>"
    by (simp add: getCustomer_def exampleDb_def)
  have none: "getWalletTransactionByReference exampleDb x = None" for x
    by (simp add: getWalletTransactionByReference_def exampleDb_def)
  show ?thesis
    by (simp add: debit_cases[OF c] none) (simp add: exampleDb_def exampleEnv_def)
qed

text \<open>
  C3, as the claim states it, fails in two ways. \<open>debit\<close> checks the balance before the
  reference, so a retry whose amount the remaining balance no longer covers fails with
  \<open>InsufficientBalanceError\<close>, not \<open>DuplicateTransactionError\<close>: with balance 1000, a debit
  of 600 under reference \<open>R\<close> succeeds and its retry meets a balance of 400. And an empty
  reference is falsy, so \<open>options.reference || generateReference(...)\<close> replaces it by a
  generated one: two debits of 100 under the empty reference both succeed and leave 800.
\<close>

theorem duplicate_reference_counterexample:
  "\<not> isl (fst (debit (exampleEnv 10 ''a'') exampleDb ''c1'' 600 ''d'' (refOpts ''R'')))
   \<and> fst (debit (exampleEnv 20 ''b'')
            (snd (debit (exampleEnv 10 ''a'') exampleDb ''c1'' 600 ''d'' (refOpts ''R'')))
            ''c1'' 600 ''d'' (refOpts ''R''))
       = Inl (InsufficientBalanceError 600 400 200)
   \<and> fst (debit (exampleEnv 20 ''b'')
            (snd (debit (exampleEnv 10 ''a'') exampleDb ''c1'' 600 ''d'' (refOpts ''R'')))
            ''c1'' 600 ''d'' (refOpts ''R''))
       \<noteq> Inl (DuplicateTransactionError ''R'')
   \<and> \<not> isl (fst (debit (exampleEnv 10 ''a'') exampleDb ''c1'' 100 ''d'' (refOpts [])))
   \<and> \<not> isl (fst (debit (exampleEnv 20 ''b'')
            (snd (debit (exampleEnv 10 ''a'') exampleDb ''c1'' 100 ''d'' (refOpts [])))
            ''c1'' 100 ''d'' (refOpts [])))
   \<and> balanceOf (snd (debit (exampleEnv 20 ''b'')
            (snd (debit (exampleEnv 10 ''a'') exampleDb ''c1'' 100 ''d'' (refOpts [])))
            ''c1'' 100 ''d'' (refOpts []))) ''c1'' = Some 800"
proof -
  have c: "getCustomer \<lparr> customers = [(''c1'', cu)], walletTransactions = ts \<rparr> ''c1'' = Some cu"
    for cu ts
    by (simp add: getCustomer_def)
  have byE: "getWalletTransactionByReference
               \<lparr> customers = cs,
                 walletTransactions =
                   [(k, debitTxn (exampleEnv 10 ''a'') ''c1'' 1000 100 ''d'' (refOpts []))] \<rparr>
               (debitReference (exampleEnv 20 ''b'') (refOpts [])) = None" for cs k
    by (simp add: getWalletTransactionByReference_def debitTxn_def refOpts_def orElse_def
          exampleReference_debit_b exampleReference_a)
  show ?thesis
    by (simp add: example_first_debit debit_cases[OF c] byE balanceOf_def getCustomer_def)
qed

text \<open>
  C3, amended. Let \<open>R\<close> be a non-empty reference under which a debit or a credit has
  succeeded. Then every later \<open>debit\<close> under \<open>R\<close> on an existing account fails and
  returns the store as it was (no balance change, no transaction written): with
  \<open>DuplicateTransactionError R\<close> when the account's balance covers the amount, and with
  \<open>InsufficientBalanceError\<close> otherwise, since the affordability check comes first.
  Every later \<open>credit\<close> under \<open>R\<close> fails with \<open>DuplicateTransactionError R\<close> and returns
  the store as it was.
\<close>

theorem duplicate_reference_guard:
  assumes ref: "R \<noteq> []"
    and first: "(do_reference opts = Some R \<and> debit env db cid amt descr opts = (Inr r1, db1))
              \<or> (co_reference copts = Some R \<and> credit env db cid amt descr copts = (Inr r1, db1))"
    and acct: "getCustomer db1 cid2 = Some cust2"
    and again: "do_reference opts2 = Some R" "co_reference copts2 = Some R"
  shows "debit env2 db1 cid2 amt2 descr2 opts2 =
           (if walletBalance cust2 < amt2
            then (Inl (InsufficientBalanceError amt2 (walletBalance cust2)
                         (amt2 - walletBalance cust2)), db1)
            else (Inl (DuplicateTransactionError R), db1))
       \<and> credit env2 db1 cid2 amt2 descr2 copts2 = (Inl (DuplicateTransactionError R), db1)"
proof -
  have used: "getWalletTransactionByReference db1 R \<noteq> None"
    using first
  proof
    assume h: "do_reference opts = Some R \<and> debit env db cid amt descr opts = (Inr r1, db1)"
    then obtain cust where c: "getCustomer db cid = Some cust"
      by (cases "getCustomer db cid") (auto simp: debit_no_customer)
    note s = debit_success[OF c conjunct2[OF h]]
    have "reference (transaction r1) = R"
      using h ref by (simp add: s(3) debitTxn_def orElse_Some)
    then show ?thesis
      unfolding s(4) by (rule byReference_update)
  next
    assume h: "co_reference copts = Some R \<and> credit env db cid amt descr copts = (Inr r1, db1)"
    then obtain cust where c: "getCustomer db cid = Some cust"
      by (cases "getCustomer db cid") (auto simp: credit_no_customer)
    note s = credit_success[OF c conjunct2[OF h]]
    have "reference (transaction r1) = R"
      using h ref by (simp add: s(2) creditTxn_def orElse_Some)
    then show ?thesis
      unfolding s(3) by (rule byReference_update)
  qed
  show ?thesis
    using used by (simp add: debit_cases[OF acct] credit_cases[OF acct] again orElse_Some[OF ref])
qed

theorem duplicate_reference_guard_witness:
  "\<exists>r1 db1.
       debit (exampleEnv 10 ''a'') exampleDb ''c1'' 600 ''d'' (refOpts ''R'') = (Inr r1, db1)
     \<and> balanceOf db1 ''c1'' = Some 400
     \<and> debit (exampleEnv 20 ''b'') db1 ''c1'' 600 ''d'' (refOpts ''R'') =
          (Inl (InsufficientBalanceError 600 400 200), db1)
     \<and> debit (exampleEnv 20 ''b'') db1 ''c1'' 100 ''d'' (refOpts ''R'') =
          (Inl (DuplicateTransactionError ''R''), db1)
     \<and> credit (exampleEnv 20 ''b'') db1 ''c1'' 100 ''d'' (creditRefOpts ''R'') =
          (Inl (DuplicateTransactionError ''R''), db1)"
proof -
  let ?cust = "\<lparr> walletBalance = 1000, updatedAt = 0 \<rparr>"
  have c: "getCustomer exampleDb ''c1'' = Some ?cust"
    by (simp add: getCustomer_def exampleDb_def)
  have none: "getWalletTransactionByReference exampleDb x = None" for x
    by (simp add: getWalletTransactionByReference_def exampleDb_def)
  obtain r1 db1 where d:
      "debit (exampleEnv 10 ''a'') exampleDb ''c1'' 600 ''d'' (refOpts ''R'') = (Inr r1, db1)"
    by (simp add: debit_cases[OF c] none)
  note s = debit_success[OF c d]
  have c1: "getCustomer db1 ''c1'' =
              Some (?cust\<lparr>walletBalance := 400, updatedAt := nowT (exampleEnv 10 ''a'')\<rparr>)"
    by (simp add: s(4))
  have b1: "balanceOf db1 ''c1'' = Some 400"
    by (simp add: s(4))
  have R: "''R'' \<noteq> []" by simp
  have o: "do_reference (refOpts ''R'') = Some ''R''"
      "co_reference (creditRefOpts ''R'') = Some ''R''"
    by (simp_all add: refOpts_def creditRefOpts_def)
  have f: "(do_reference (refOpts ''R'') = Some ''R''
              \<and> debit (exampleEnv 10 ''a'') exampleDb ''c1'' 600 ''d'' (refOpts ''R'') = (Inr r1, db1))
         \<or> (co_reference copts = Some ''R''
              \<and> credit (exampleEnv 10 ''a'') exampleDb ''c1'' 600 ''d'' copts = (Inr r1, db1))"
    for copts
    using o d by simp
  show ?thesis
    using duplicate_reference_guard[OF R f c1 o, where ?env2.0 = "exampleEnv 20 ''b''"
            and ?amt2.0 = 600 and ?descr2.0 = "''d''"]
          duplicate_reference_guard[OF R f c1 o, where ?env2.0 = "exampleEnv 20 ''b''"
            and ?amt2.0 = 100 and ?descr2.0 = "''d''"]
          d b1
    by simp
qed

section \<open>Charging once, and when\<close>

lemma hasCharged_emit [simp]: "hasCharged (emit ev r) = hasCharged r"
  by (simp add: emit_def)

lemma database_emit [simp]: "database (emit ev r) = database r"
  by (simp add: emit_def)

lemma statusCode_emit [simp]: "statusCode (emit ev r) = statusCode r"
  by (simp add: emit_def)

lemma events_emit [simp]: "events (emit ev r) = events r @ [ev]"
  by (simp add: emit_def)

lemma processCharge_begin_charged:
  "hasCharged r \<Longrightarrow> processCharge_begin r = (Finished True, r)"
  by (simp add: processCharge_begin_def)

lemma processCharge_charged:
  "hasCharged r \<Longrightarrow> processCharge env r = (True, r)"
  by (simp add: processCharge_def processCharge_begin_charged)

lemma processCharge_begin_Finished:
  "fst (processCharge_begin r) = Finished b \<Longrightarrow>
     b \<and> database (snd (processCharge_begin r)) = database r
       \<and> hasCharged (snd (processCharge_begin r)) = hasCharged r
       \<and> statusCode (snd (processCharge_begin r)) = statusCode r"
  by (auto simp: processCharge_begin_def split: if_splits option.splits)

lemma processCharge_begin_Awaiting:
  "fst (processCharge_begin r) = AwaitingDebit cid price code \<Longrightarrow>
     snd (processCharge_begin r) = r\<lparr>hasCharged := True\<rparr>
     \<and> \<not> hasCharged r \<and> 200 \<le> statusCode r \<and> statusCode r < 300
     \<and> customer r = Some cid
     \<and> (\<exists>wc. walletContext r = Some wc \<and> \<not> charged wc \<and> priceKobo wc \<noteq> 0
              \<and> price = priceKobo wc \<and> code = serviceCode wc)"
  by (auto simp: processCharge_begin_def split: if_splits option.splits)

lemma processCharge_unfold:
  "processCharge env r =
     (case fst (processCharge_begin r) of
        Finished b \<Rightarrow> (b, snd (processCharge_begin r))
      | AwaitingDebit cid price code \<Rightarrow>
          processCharge_resume env cid price code (snd (processCharge_begin r)))"
  by (cases "processCharge_begin r") (simp add: processCharge_def split: ChargeStep.splits)

lemma processCharge_resume_keeps:
  "hasCharged (snd (processCharge_resume env cid price code r)) = hasCharged r"
  "statusCode (snd (processCharge_resume env cid price code r)) = statusCode r"
  by (auto simp: processCharge_resume_def split: prod.splits sum.splits)

lemma processCharge_statusCode:
  "statusCode (snd (processCharge env r)) = statusCode r"
proof (cases "fst (processCharge_begin r)")
  case (Finished b)
  then show ?thesis
    using processCharge_begin_Finished[OF Finished]
    by (simp add: processCharge_unfold)
next
  case (AwaitingDebit cid price code)
  then show ?thesis
    using processCharge_begin_Awaiting[OF AwaitingDebit]
    by (simp add: processCharge_unfold processCharge_resume_keeps)
qed

lemma processCharge_sets_flag:
  "fst (processCharge_begin r) = AwaitingDebit cid price code \<Longrightarrow>
     hasCharged (snd (processCharge env r))"
  using processCharge_begin_Awaiting[of r cid price code]
  by (simp add: processCharge_unfold processCharge_resume_keeps)

lemma processCharge_skip:
  "fst (processCharge_begin r) = Finished b \<Longrightarrow>
     fst (processCharge env r) = True \<and> database (snd (processCharge env r)) = database r
     \<and> hasCharged (snd (processCharge env r)) = hasCharged r"
  using processCharge_begin_Finished[of r b]
  by (simp add: processCharge_unfold)

lemma non2xx_begin:
  "statusCode r < 200 \<or> statusCode r \<ge> 300 \<Longrightarrow> \<exists>b. fst (processCharge_begin r) = Finished b"
  by (cases "fst (processCharge_begin r)") (auto dest: processCharge_begin_Awaiting)

lemma debitCalls_charged: "hasCharged r \<Longrightarrow> debitCalls envs r = 0"
  by (induction envs) (simp_all add: processCharge_charged processCharge_begin_charged)

lemma debitCalls_le_1: "debitCalls envs r \<le> 1"
proof (induction envs arbitrary: r)
  case Nil
  then show ?case by simp
next
  case (Cons env envs)
  show ?case
  proof (cases "fst (processCharge_begin r)")
    case (Finished b)
    then show ?thesis using Cons[of "snd (processCharge env r)"] by simp
  next
    case (AwaitingDebit cid price code)
    then show ?thesis
      using debitCalls_charged[OF processCharge_sets_flag[OF AwaitingDebit], of envs env]
      by simp
  qed
qed

lemma non2xx_all:
  "statusCode r < 200 \<or> statusCode r \<ge> 300 \<Longrightarrow>
     debitCalls envs r = 0 \<and> database (processChargeAll envs r) = database r"
proof (induction envs arbitrary: r)
  case Nil
  then show ?case by simp
next
  case (Cons env envs)
  obtain b where b: "fst (processCharge_begin r) = Finished b"
    using non2xx_begin[OF Cons.prems] by blast
  have st: "statusCode (snd (processCharge env r)) < 200 \<or> statusCode (snd (processCharge env r)) \<ge> 300"
    using Cons.prems by (simp add: processCharge_statusCode)
  show ?case
    using Cons.IH[OF st] processCharge_skip[OF b, of env] b by simp
qed

lemma processCharge_begin_billable:
  assumes "walletContext r = Some wc" "\<not> charged wc" "priceKobo wc \<noteq> 0"
    "customer r = Some cid" "200 \<le> statusCode r" "statusCode r < 300" "\<not> hasCharged r"
  shows "processCharge_begin r =
           (AwaitingDebit cid (priceKobo wc) (serviceCode wc), r\<lparr>hasCharged := True\<rparr>)"
  using assms by (simp add: processCharge_begin_def)

lemma orElse_None: "orElse None g = g"
  by (simp add: orElse_def)

lemma exampleRequest_billable:
  "walletContext (exampleRequest 200) =
     Some \<lparr> serviceCode = ''name-search'', priceKobo = 100, wc_balanceBefore = 1000,
            charged = False, transactionId = None, chargeError = None \<rparr>"
  "customer (exampleRequest 200) = Some ''c1''"
  "statusCode (exampleRequest st) = st"
  "\<not> hasCharged (exampleRequest st)"
  "database (exampleRequest st) = exampleDb"
  "events (exampleRequest st) = []"
  by (simp_all add: exampleRequest_def)

lemma exampleRequest_charged:
  "balanceOf (database (snd (processCharge (exampleEnv 10 ''a'') (exampleRequest 200)))) ''c1''
     = Some 900"
proof -
  have c: "getCustomer exampleDb ''c1'' = Some \<lparr> walletBalance = 1000, updatedAt = 0 \<rparr>"
    by (simp add: getCustomer_def exampleDb_def)
  have none: "getWalletTransactionByReference exampleDb x = None" for x
    by (simp add: getWalletTransactionByReference_def exampleDb_def)
  have b: "processCharge_begin (exampleRequest 200) =
             (AwaitingDebit ''c1'' 100 ''name-search'', (exampleRequest 200)\<lparr>hasCharged := True\<rparr>)"
    using processCharge_begin_billable[OF exampleRequest_billable(1) _ _ exampleRequest_billable(2)]
    by (simp add: exampleRequest_billable)
  show ?thesis
    by (simp add: processCharge_def b processCharge_resume_def exampleRequest_billable
          debit_cases[OF c] none)
qed

text \<open>
  C7. The post-check stage never charges on a response whose status is outside
  \<open>[200, 300)\<close>: however often \<open>processCharge\<close> runs for such a request, \<open>debit\<close> is never
  called and the store (balances and transactions) stays as it was. And it never charges
  twice for one request: over any number of invocations \<open>debit\<close> is called at most once.
  The guard is the flag \<open>hasCharged\<close>: an invocation that finds it set returns at once
  and changes nothing, an invocation that changes the store has set it, and it is already
  set when the synchronous part of an invocation hands over to \<open>debit\<close>, so that an
  invocation arriving before the debit has finished is turned away too.
\<close>

theorem charge_at_most_once:
  "debitCalls envs r \<le> 1
   \<and> (statusCode r < 200 \<or> statusCode r \<ge> 300 \<longrightarrow>
        debitCalls envs r = 0 \<and> database (processChargeAll envs r) = database r)
   \<and> (hasCharged r \<longrightarrow> processCharge env r = (True, r))
   \<and> (database (snd (processCharge env r)) \<noteq> database r \<longrightarrow>
        hasCharged (snd (processCharge env r)))
   \<and> (\<forall>cid price code.
        fst (processCharge_begin r) = AwaitingDebit cid price code \<longrightarrow>
        processCharge_begin (snd (processCharge_begin r)) =
          (Finished True, snd (processCharge_begin r)))"
proof -
  have "hasCharged (snd (processCharge env r))"
    if "database (snd (processCharge env r)) \<noteq> database r"
  proof (cases "fst (processCharge_begin r)")
    case (Finished b)
    then show ?thesis using processCharge_skip[OF Finished, of env] that by simp
  next
    case (AwaitingDebit cid price code)
    then show ?thesis by (rule processCharge_sets_flag)
  qed
  moreover have "processCharge_begin (snd (processCharge_begin r)) =
          (Finished True, snd (processCharge_begin r))"
    if "fst (processCharge_begin r) = AwaitingDebit cid price code" for cid price code
    using processCharge_begin_Awaiting[OF that]
    by (simp add: processCharge_begin_charged)
  ultimately show ?thesis
    using debitCalls_le_1 non2xx_all processCharge_charged by blast
qed

theorem charge_at_most_once_witness:
  "debitCalls [exampleEnv 10 ''a'', exampleEnv 20 ''b''] (exampleRequest 200) \<le> 1
   \<and> debitCalls [exampleEnv 10 ''a'', exampleEnv 20 ''b''] (exampleRequest 500) = 0
   \<and> database (processChargeAll [exampleEnv 10 ''a'', exampleEnv 20 ''b''] (exampleRequest 500))
        = exampleDb
   \<and> balanceOf (database (snd (processCharge (exampleEnv 10 ''a'') (exampleRequest 200)))) ''c1''
        = Some 900
   \<and> hasCharged (snd (processCharge (exampleEnv 10 ''a'') (exampleRequest 200)))
   \<and> processCharge (exampleEnv 20 ''b'')
        (snd (processCharge (exampleEnv 10 ''a'') (exampleRequest 200)))
        = (True, snd (processCharge (exampleEnv 10 ''a'') (exampleRequest 200)))"
proof -
  let ?envs = "[exampleEnv 10 ''a'', exampleEnv 20 ''b'']"
  let ?r1 = "snd (processCharge (exampleEnv 10 ''a'') (exampleRequest 200))"
  have changed: "database ?r1 \<noteq> database (exampleRequest 200)"
  proof
    assume "database ?r1 = database (exampleRequest 200)"
    then have "balanceOf (database ?r1) ''c1'' = balanceOf exampleDb ''c1''"
      by (simp add: exampleRequest_billable)
    then show False
      by (simp add: exampleRequest_charged) (simp add: balanceOf_def getCustomer_def exampleDb_def)
  qed
  have flag: "hasCharged ?r1"
    using charge_at_most_once[of ?envs "exampleRequest 200" "exampleEnv 10 ''a''"] changed
    by blast
  show ?thesis
    using charge_at_most_once[of ?envs "exampleRequest 200" "exampleEnv 10 ''a''"]
          charge_at_most_once[of ?envs "exampleRequest 500" "exampleEnv 10 ''a''"]
          charge_at_most_once[of ?envs ?r1 "exampleEnv 20 ''b''"]
          flag exampleRequest_charged
    by (simp add: exampleRequest_billable)
qed

text \<open>
  C4 says that the debit is awaited before the response is released. The code does not do
  that. The override of \<open>res.json\<close> starts the charge inside an \<open>async\<close> arrow function
  whose promise nobody awaits, and returns \<open>originalJson(body)\<close> in the same turn. For
  every billable request with a status in \<open>[200, 300)\<close>, when \<open>res.json\<close> returns the
  response has been handed to Express, the store is still as it was and the debit is
  still waiting; on an account that can pay, the debit and its log line come after the
  response.
\<close>

theorem response_sent_before_charge:
  assumes billable: "walletContext r = Some wc" "\<not> charged wc" "priceKobo wc \<noteq> 0"
    "customer r = Some cid" "200 \<le> statusCode r" "statusCode r < 300" "\<not> hasCharged r"
    and funds: "getCustomer (database r) cid = Some cust" "priceKobo wc \<le> walletBalance cust"
    and ref: "getWalletTransactionByReference (database r)
                (generateReference env DebitT (Some (serviceCode wc))) = None"
  shows "fst (res_json_returned body r) = AwaitingDebit cid (priceKobo wc) (serviceCode wc)
       \<and> events (snd (res_json_returned body r)) = events r @ [ResponseSent body]
       \<and> database (snd (res_json_returned body r)) = database r
       \<and> events (res_json_settled env body r) =
            events r @ [ResponseSent body, Logged CHARGE (serviceCode wc)]
       \<and> balanceOf (database (res_json_settled env body r)) cid =
            Some (walletBalance cust - priceKobo wc)"
proof -
  let ?r2 = "originalJson body (r\<lparr>hasCharged := True\<rparr>)"
  have ret: "res_json_returned body r =
               (AwaitingDebit cid (priceKobo wc) (serviceCode wc), ?r2)"
    by (simp add: res_json_returned_def processCharge_begin_billable[OF billable])
  have db2: "database ?r2 = database r" and ev2: "events ?r2 = events r @ [ResponseSent body]"
    by (simp_all add: originalJson_def)
  have c2: "getCustomer (database ?r2) cid = Some cust"
    using funds(1) by (simp add: db2)
  have settled: "res_json_settled env body r =
      (let (ok, r3) = processCharge_resume env cid (priceKobo wc) (serviceCode wc) ?r2
       in if \<not> ok then emit (ConsoleError ''Charge failed - see logs for reconciliation'') r3
          else r3)"
    by (simp add: res_json_settled_def ret)
  have "events (res_json_settled env body r) =
            events r @ [ResponseSent body, Logged CHARGE (serviceCode wc)]
       \<and> balanceOf (database (res_json_settled env body r)) cid =
            Some (walletBalance cust - priceKobo wc)"
    using funds(2) ref
    by (simp add: settled processCharge_resume_def debit_cases[OF funds(1)] orElse_None db2 ev2)
  then show ?thesis
    by (simp add: ret db2 ev2)
qed

theorem response_sent_before_charge_witness:
  "fst (res_json_returned ''body'' (exampleRequest 200)) = AwaitingDebit ''c1'' 100 ''name-search''
   \<and> events (snd (res_json_returned ''body'' (exampleRequest 200))) = [ResponseSent ''body'']
   \<and> database (snd (res_json_returned ''body'' (exampleRequest 200))) = exampleDb
   \<and> balanceOf exampleDb ''c1'' = Some 1000
   \<and> events (res_json_settled (exampleEnv 10 ''a'') ''body'' (exampleRequest 200)) =
        [ResponseSent ''body'', Logged CHARGE ''name-search'']
   \<and> balanceOf (database (res_json_settled (exampleEnv 10 ''a'') ''body'' (exampleRequest 200)))
        ''c1'' = Some 900"
proof -
  have c: "getCustomer (database (exampleRequest 200)) ''c1'' =
             Some \<lparr> walletBalance = 1000, updatedAt = 0 \<rparr>"
    by (simp add: getCustomer_def exampleDb_def exampleRequest_billable)
  have none: "getWalletTransactionByReference (database (exampleRequest 200)) x = None" for x
    by (simp add: getWalletTransactionByReference_def exampleDb_def exampleRequest_billable)
  have b: "balanceOf exampleDb ''c1'' = Some 1000"
    by (simp add: balanceOf_def getCustomer_def exampleDb_def)
  show ?thesis
    using response_sent_before_charge[OF exampleRequest_billable(1) _ _
            exampleRequest_billable(2) _ _ exampleRequest_billable(4) c _ none,
            where env = "exampleEnv 10 ''a''" and body = "''body''"] b
    by (simp add: exampleRequest_billable)
qed

section \<open>Resolving the service code of a request path\<close>

lemma firstKnown_find:
  "firstKnown segs = find (\<lambda>s. s \<in> set knownServiceCodes) segs"
  by (induction segs) simp_all

lemma indexOf_absent: "x \<notin> set xs \<Longrightarrow> indexOf xs x = -1"
  by (induction xs) (auto simp: Let_def)

lemma indexOf_ge: "x \<in> set xs \<Longrightarrow> 0 \<le> indexOf xs x"
  by (induction xs) (auto simp: Let_def)

lemma indexOf_first:
  "x \<notin> set pre \<Longrightarrow> indexOf (pre @ x # rest) x = int (length pre)"
proof (induction pre)
  case Nil
  then show ?case by simp
next
  case (Cons a pre)
  then show ?case by (auto simp: Let_def)
qed

lemma at_nth: "i < length xs \<Longrightarrow> at xs (int i) = Some (xs ! i)"
  by (simp add: at_def)

lemma at_append_Suc:
  "at (pre @ x # y # rest) (int (length pre) + 1) = Some y"
  using at_nth[of "Suc (length pre)" "pre @ x # y # rest"]
  by (simp add: nth_append add.commute)

lemma at_append_Suc_Suc:
  "at (pre @ x # y # z # rest) (int (length pre) + 2) = Some z"
  using at_nth[of "Suc (Suc (length pre))" "pre @ x # y # z # rest"]
  by (simp add: nth_append add.commute)

lemma at_last: "xs \<noteq> [] \<Longrightarrow> at xs (int (length xs) - 1) = Some (last xs)"
  by (cases xs rule: rev_cases) (auto simp: at_def nth_append)

lemma at_second_last:
  "2 \<le> length xs \<Longrightarrow> at xs (int (length xs) - 2) = Some (xs ! (length xs - 2))"
proof -
  assume a: "2 \<le> length xs"
  then have "nat (int (length xs) - 2) = length xs - 2" by simp
  then show ?thesis using a by (simp add: at_def)
qed

lemma indexOf_butlast:
  assumes "x \<notin> set (butlast xs)"
  shows "indexOf xs x = -1 \<or> int (length xs) \<le> indexOf xs x + 1"
proof (cases "x \<in> set xs")
  case False
  then show ?thesis by (simp add: indexOf_absent)
next
  case True
  then have ne: "xs \<noteq> []" by auto
  then have xs: "xs = butlast xs @ [last xs]" by simp
  have "last xs = x"
    using True assms xs by (metis Un_iff empty_iff empty_set set_ConsD set_append)
  then have "xs = butlast xs @ x # []" using xs by simp
  then have "indexOf xs x = int (length (butlast xs))"
    using indexOf_first[OF assms, of "[]"] by simp
  then show ?thesis by simp
qed

lemma pathSegments_nonempty: "s \<in> set (pathSegments e) \<Longrightarrow> s \<noteq> []"
  by (simp add: pathSegments_def Let_def)

lemma getServiceCodeFromEndpoint_unfold:
  "getServiceCodeFromEndpoint e =
     (case firstKnown (pathSegments e) of
        Some segment \<Rightarrow> Some segment
      | None \<Rightarrow>
          (if indexOf (pathSegments e) ''business'' \<noteq> -1
                \<and> int (length (pathSegments e)) > indexOf (pathSegments e) ''business'' + 1
           then
             (if at (pathSegments e) (indexOf (pathSegments e) ''business'' + 1) = Some ''identity''
                   \<and> int (length (pathSegments e)) > indexOf (pathSegments e) ''business'' + 2
              then at (pathSegments e) (indexOf (pathSegments e) ''business'' + 2)
              else at (pathSegments e) (indexOf (pathSegments e) ''business'' + 1))
           else if length (pathSegments e) \<ge> 2
           then
             (if (case at (pathSegments e) (int (length (pathSegments e)) - 1) of
                    None \<Rightarrow> False | Some l \<Rightarrow> hasDigit l)
              then at (pathSegments e) (int (length (pathSegments e)) - 2)
              else at (pathSegments e) (int (length (pathSegments e)) - 1))
           else
             (case at (pathSegments e) (int (length (pathSegments e)) - 1) of
                None \<Rightarrow> None
              | Some s \<Rightarrow> (if s = [] then None else Some s))))"
  unfolding getServiceCodeFromEndpoint_def Let_def by (rule refl)

lemma resolve_business:
  assumes none: "firstKnown (pathSegments e) = None"
    and segs: "pathSegments e = pre @ ''business'' # code # rest"
    and pre: "''business'' \<notin> set pre"
  shows "getServiceCodeFromEndpoint e =
           Some (if code = ''identity'' \<and> rest \<noteq> [] then hd rest else code)"
proof -
  have i: "indexOf (pathSegments e) ''business'' = int (length pre)"
    unfolding segs by (rule indexOf_first[OF pre])
  have n: "at (pathSegments e) (int (length pre) + 1) = Some code"
    unfolding segs by (rule at_append_Suc)
  have c1: "(int (length pre) \<noteq> -1 \<and> int (length (pathSegments e)) > int (length pre) + 1) = True"
    by (simp add: segs)
  have c2: "(Some code = Some ''identity'' \<and> int (length (pathSegments e)) > int (length pre) + 2)
              = (code = ''identity'' \<and> rest \<noteq> [])"
    by (cases rest) (simp_all add: segs)
  have z: "rest \<noteq> [] \<Longrightarrow> at (pathSegments e) (int (length pre) + 2) = Some (hd rest)"
    using at_append_Suc_Suc[of pre "''business''" code "hd rest" "tl rest"]
    by (simp add: segs)
  have "getServiceCodeFromEndpoint e =
          (if code = ''identity'' \<and> rest \<noteq> [] then at (pathSegments e) (int (length pre) + 2)
           else Some code)"
    by (simp only: getServiceCodeFromEndpoint_unfold none option.case i c1 if_True n c2)
  then show ?thesis
    using z by simp
qed

lemma resolve_fallback:
  assumes none: "firstKnown (pathSegments e) = None"
    and nb: "''business'' \<notin> set (butlast (pathSegments e))"
    and len: "2 \<le> length (pathSegments e)"
  shows "getServiceCodeFromEndpoint e =
           Some (if hasDigit (last (pathSegments e))
                 then pathSegments e ! (length (pathSegments e) - 2)
                 else last (pathSegments e))"
proof -
  have ne: "pathSegments e \<noteq> []" using len by auto
  have c1: "(indexOf (pathSegments e) ''business'' \<noteq> -1
                \<and> int (length (pathSegments e)) > indexOf (pathSegments e) ''business'' + 1)
            = False"
    using indexOf_butlast[OF nb] by auto
  have c2: "(length (pathSegments e) \<ge> 2) = True"
    using len by simp
  have "getServiceCodeFromEndpoint e =
          (if hasDigit (last (pathSegments e))
           then Some (pathSegments e ! (length (pathSegments e) - 2))
           else Some (last (pathSegments e)))"
    by (simp only: getServiceCodeFromEndpoint_unfold none option.case c1 c2 if_True if_False
          at_last[OF ne] at_second_last[OF len])
  then show ?thesis
    by simp
qed

lemma resolve_single:
  assumes none: "firstKnown (pathSegments e) = None"
    and len: "length (pathSegments e) = 1"
  shows "getServiceCodeFromEndpoint e = Some (hd (pathSegments e))"
proof -
  obtain s where s: "pathSegments e = [s]"
    using len by (cases "pathSegments e") auto
  have ne: "s \<noteq> []"
    using pathSegments_nonempty[of s e] s by simp
  have c1: "(indexOf [s] ''business'' \<noteq> -1
                \<and> int (length [s]) > indexOf [s] ''business'' + 1) = False"
    by (simp add: Let_def)
  have c2: "(length [s] \<ge> 2) = False"
    by simp
  have a: "at [s] (int (length [s]) - 1) = Some s"
    by (simp add: at_def)
  have "getServiceCodeFromEndpoint e = (if s = [] then None else Some s)"
    using none
    by (simp only: getServiceCodeFromEndpoint_unfold s option.case c1 c2 if_False a)
  then show ?thesis
    using ne by (simp add: s)
qed

lemma resolve_None_iff:
  "getServiceCodeFromEndpoint e = None \<longleftrightarrow> pathSegments e = []"
proof
  assume "pathSegments e = []"
  then show "getServiceCodeFromEndpoint e = None"
    by (simp add: getServiceCodeFromEndpoint_unfold at_def)
next
  assume r: "getServiceCodeFromEndpoint e = None"
  show "pathSegments e = []"
  proof (rule ccontr)
    assume ne: "pathSegments e \<noteq> []"
    show False
    proof (cases "firstKnown (pathSegments e)")
      case (Some c)
      then show False using r by (simp add: getServiceCodeFromEndpoint_unfold)
    next
      case None
      show False
      proof (cases "''business'' \<in> set (butlast (pathSegments e))")
        case True
        then obtain pre post where b: "butlast (pathSegments e) = pre @ ''business'' # post"
            "''business'' \<notin> set pre"
          by (meson split_list_first)
        have "pathSegments e = butlast (pathSegments e) @ [last (pathSegments e)]"
          using ne by simp
        then have "\<exists>code rest. pathSegments e = pre @ ''business'' # code # rest"
          unfolding b(1) by (cases post) auto
        then show False
          using resolve_business[OF None _ b(2)] r by auto
      next
        case False
        show False
        proof (cases "2 \<le> length (pathSegments e)")
          case True
          then show False using resolve_fallback[OF None False True] r by simp
        next
          case False
          then have "length (pathSegments e) = 1"
            using ne by (cases "pathSegments e") (auto simp: not_le less_Suc_eq)
          then show False using resolve_single[OF None] r by simp
        qed
      qed
    qed
  qed
qed

text \<open>
  C8. \<open>getServiceCodeFromEndpoint\<close> (the spec's \<open>resolveServiceCode\<close>) works on the
  non-empty segments of the path before the query string, in this order. (1) If a segment
  is one of the known service codes, the first such segment is the result. (2) Otherwise,
  if \<open>business\<close> occurs and a segment follows its first occurrence, the result is that
  next segment, or the one after it when the next segment is \<open>identity\<close> and another
  follows. (3) Otherwise, with two segments or more, the result is the second-to-last
  segment when the last one contains a digit, and the last one when it does not; a single
  segment is its own result. The result is null exactly when the path has no segment.
\<close>

theorem resolve_service_code:
  "firstKnown (pathSegments e) = find (\<lambda>s. s \<in> set knownServiceCodes) (pathSegments e)
   \<and> (\<forall>c. firstKnown (pathSegments e) = Some c \<longrightarrow> getServiceCodeFromEndpoint e = Some c)
   \<and> (firstKnown (pathSegments e) = None \<longrightarrow>
        (\<forall>pre code rest.
            pathSegments e = pre @ ''business'' # code # rest \<and> ''business'' \<notin> set pre \<longrightarrow>
            getServiceCodeFromEndpoint e =
              Some (if code = ''identity'' \<and> rest \<noteq> [] then hd rest else code))
        \<and> (''business'' \<notin> set (butlast (pathSegments e)) \<and> 2 \<le> length (pathSegments e) \<longrightarrow>
            getServiceCodeFromEndpoint e =
              Some (if hasDigit (last (pathSegments e))
                    then pathSegments e ! (length (pathSegments e) - 2)
                    else last (pathSegments e)))
        \<and> (length (pathSegments e) = 1 \<longrightarrow>
            getServiceCodeFromEndpoint e = Some (hd (pathSegments e))))
   \<and> (getServiceCodeFromEndpoint e = None \<longleftrightarrow> pathSegments e = [])"
proof -
  have known: "getServiceCodeFromEndpoint e = Some c" if "firstKnown (pathSegments e) = Some c" for c
    using that by (simp add: getServiceCodeFromEndpoint_unfold)
  show ?thesis
    using firstKnown_find known resolve_business resolve_fallback resolve_single resolve_None_iff
    by blast
qed

theorem resolve_service_code_witness:
  "getServiceCodeFromEndpoint ''/api/v1/business/name-search'' = Some ''name-search''
   \<and> getServiceCodeFromEndpoint ''/api/v1/business/identity/nin/123?x=1'' = Some ''nin''
   \<and> getServiceCodeFromEndpoint ''/api/v1/business/cac-status'' = Some ''cac-status''
   \<and> getServiceCodeFromEndpoint ''/api/v1/reports/123'' = Some ''reports''
   \<and> getServiceCodeFromEndpoint ''/api/v1/reports'' = Some ''reports''
   \<and> getServiceCodeFromEndpoint ''/health'' = Some ''health''
   \<and> getServiceCodeFromEndpoint ''/?q=1'' = None"
proof -
  let ?e1 = "''/api/v1/business/name-search''"
  let ?e2 = "''/api/v1/business/identity/nin/123?x=1''"
  let ?e3 = "''/api/v1/business/cac-status''"
  let ?e4 = "''/api/v1/reports/123''"
  let ?e5 = "''/api/v1/reports''"
  let ?e6 = "''/health''"
  let ?e7 = "''/?q=1''"
  have p1: "pathSegments ?e1 = [''api'', ''v1'', ''business'', ''name-search'']"
    by code_simp
  have p2: "pathSegments ?e2 = [''api'', ''v1'', ''business'', ''identity'', ''nin'', ''123'']"
    by code_simp
  have p3: "pathSegments ?e3 = [''api'', ''v1'', ''business'', ''cac-status'']"
    by code_simp
  have p4: "pathSegments ?e4 = [''api'', ''v1'', ''reports'', ''123'']"
    by code_simp
  have p5: "pathSegments ?e5 = [''api'', ''v1'', ''reports'']"
    by code_simp
  have p6: "pathSegments ?e6 = [''health'']"
    by code_simp
  have p7: "pathSegments ?e7 = []"
    by code_simp
  have k1: "firstKnown (pathSegments ?e1) = Some ''name-search''"
    unfolding p1 by code_simp
  have k2: "firstKnown (pathSegments ?e2) = None"
    unfolding p2 by code_simp
  have k3: "firstKnown (pathSegments ?e3) = None"
    unfolding p3 by code_simp
  have k4: "firstKnown (pathSegments ?e4) = None"
    unfolding p4 by code_simp
  have k5: "firstKnown (pathSegments ?e5) = None"
    unfolding p5 by code_simp
  have k6: "firstKnown (pathSegments ?e6) = None"
    unfolding p6 by code_simp
  have d4: "hasDigit ''123''" and d5: "\<not> hasDigit ''reports''"
    by code_simp+
  have r1: "getServiceCodeFromEndpoint ?e1 = Some ''name-search''"
    using resolve_service_code[of ?e1] k1 by blast
  have "pathSegments ?e2 = [''api'', ''v1''] @ ''business'' # ''identity'' # [''nin'', ''123'']
          \<and> ''business'' \<notin> set [''api'', ''v1'']"
    by (simp add: p2)
  then have "getServiceCodeFromEndpoint ?e2 =
      Some (if ''identity'' = ''identity'' \<and> [''nin'', ''123''] \<noteq> [] then hd [''nin'', ''123'']
            else ''identity'')"
    using resolve_service_code[of ?e2] k2 by blast
  then have r2: "getServiceCodeFromEndpoint ?e2 = Some ''nin''"
    by simp
  have "pathSegments ?e3 = [''api'', ''v1''] @ ''business'' # ''cac-status'' # []
          \<and> ''business'' \<notin> set [''api'', ''v1'']"
    by (simp add: p3)
  then have "getServiceCodeFromEndpoint ?e3 =
      Some (if ''cac-status'' = ''identity'' \<and> [] \<noteq> ([]::string list) then hd []
            else ''cac-status'')"
    using resolve_service_code[of ?e3] k3 by blast
  then have r3: "getServiceCodeFromEndpoint ?e3 = Some ''cac-status''"
    by simp
  have "''business'' \<notin> set (butlast (pathSegments ?e4)) \<and> 2 \<le> length (pathSegments ?e4)"
    by (simp add: p4)
  then have "getServiceCodeFromEndpoint ?e4 =
      Some (if hasDigit (last (pathSegments ?e4))
            then pathSegments ?e4 ! (length (pathSegments ?e4) - 2)
            else last (pathSegments ?e4))"
    using resolve_service_code[of ?e4] k4 by blast
  then have r4: "getServiceCodeFromEndpoint ?e4 = Some ''reports''"
    by (simp add: p4 d4)
  have "''business'' \<notin> set (butlast (pathSegments ?e5)) \<and> 2 \<le> length (pathSegments ?e5)"
    by (simp add: p5)
  then have "getServiceCodeFromEndpoint ?e5 =
      Some (if hasDigit (last (pathSegments ?e5))
            then pathSegments ?e5 ! (length (pathSegments ?e5) - 2)
            else last (pathSegments ?e5))"
    using resolve_service_code[of ?e5] k5 by blast
  then have r5: "getServiceCodeFromEndpoint ?e5 = Some ''reports''"
    by (simp add: p5 d5)
  have "length (pathSegments ?e6) = 1"
    by (simp add: p6)
  then have "getServiceCodeFromEndpoint ?e6 = Some (hd (pathSegments ?e6))"
    using resolve_service_code[of ?e6] k6 by blast
  then have r6: "getServiceCodeFromEndpoint ?e6 = Some ''health''"
    by (simp add: p6)
  have r7: "getServiceCodeFromEndpoint ?e7 = None"
    using resolve_service_code[of ?e7] p7 by blast
  show ?thesis
    using r1 r2 r3 r4 r5 r6 r7 by blast
qed

section \<open>Balance consistency over sequences of operations\<close>

subsection \<open>Association lists as JavaScript Maps\<close>

lemma update_fresh: "k \<notin> set (map fst xs) \<Longrightarrow> AList.update k v xs = xs @ [(k, v)]"
  by (induction xs) auto

lemma update_split:
  "map_of xs k = Some v \<Longrightarrow>
     AList.update k v' xs =
       takeWhile (\<lambda>kv. fst kv \<noteq> k) xs @ (k, v') # drop 1 (dropWhile (\<lambda>kv. fst kv \<noteq> k) xs)"
  by (induction xs) (auto split: if_splits)

lemma alist_split:
  "map_of xs k = Some v \<Longrightarrow>
     xs = takeWhile (\<lambda>kv. fst kv \<noteq> k) xs @ (k, v) # drop 1 (dropWhile (\<lambda>kv. fst kv \<noteq> k) xs)"
  by (induction xs) (auto split: if_splits)

lemma update_same_key:
  "map_of xs k = Some v \<Longrightarrow> f v' = f v \<Longrightarrow>
     map (\<lambda>kv. f (snd kv)) (AList.update k v' xs) = map (\<lambda>kv. f (snd kv)) xs"
  by (induction xs) (auto split: if_splits)

subsection \<open>One operation at a time\<close>

lemma completedTransactions_ordered:
  assumes "creationOrdered db"
  shows "completedTransactions db cid = completedOf cid (walletTransactions db)"
proof -
  have "sorted (map createdAt (map snd (walletTransactions db)))"
    using assms by (simp add: creationOrdered_def comp_def)
  then have "sorted (map createdAt (completedOf cid (walletTransactions db)))"
    unfolding completedOf_def by (rule sorted_filter)
  then show ?thesis
    by (simp add: completedTransactions_def completedOf_def[symmetric] sort_key_id_if_sorted)
qed

lemma chained_snoc:
  "chained (ts @ [u]) \<longleftrightarrow> chained ts \<and> (ts = [] \<or> balanceAfter (last ts) = balanceBefore u)"
  by (induction ts rule: chained.induct) auto

lemma balanceConsistent_same:
  assumes "balanceConsistent b0 db cid" "creationOrdered db" "creationOrdered db'"
    and "completedOf cid (walletTransactions db') = completedOf cid (walletTransactions db)"
    and "balanceOf db' cid = balanceOf db cid"
  shows "balanceConsistent b0 db' cid"
  using assms
  by (simp add: balanceConsistent_def completedTransactions_ordered Let_def)

lemma balanceConsistent_snoc:
  assumes "balanceConsistent b0 db cid" "creationOrdered db" "creationOrdered db'"
    and "completedOf cid (walletTransactions db') = completedOf cid (walletTransactions db) @ [u]"
    and "balanceOf db cid = Some (balanceBefore u)"
    and "balanceOf db' cid = Some (balanceAfter u)"
  shows "balanceConsistent b0 db' cid"
  using assms
  by (auto simp: balanceConsistent_def completedTransactions_ordered Let_def chained_snoc)

lemma completedOf_snoc:
  "completedOf cid (xs @ [(k, t)]) =
     completedOf cid xs @ (if customerId t = cid \<and> status t = Completed then [t] else [])"
  by (simp add: completedOf_def)

lemma creationOrdered_snoc:
  assumes "creationOrdered db"
    and "walletTransactions db' = walletTransactions db @ [(k, t)]"
    and "list_all (\<lambda>u. createdAt u \<le> createdAt t) (map snd (walletTransactions db))"
  shows "creationOrdered db'"
  using assms by (auto simp: creationOrdered_def sorted_append list_all_iff)

lemma step_append:
  assumes ord: "creationOrdered db" and inv: "balanceConsistent b0 db cid"
    and txns: "walletTransactions db' = walletTransactions db @ [(k, t)]"
    and time: "list_all (\<lambda>u. createdAt u \<le> createdAt t) (map snd (walletTransactions db))"
    and paid: "status t = Completed \<Longrightarrow>
                 balanceOf db (customerId t) = Some (balanceBefore t)
                 \<and> balanceOf db' (customerId t) = Some (balanceAfter t)"
    and others: "\<And>c. c \<noteq> customerId t \<or> status t \<noteq> Completed \<Longrightarrow>
                   balanceOf db' c = balanceOf db c"
  shows "creationOrdered db' \<and> balanceConsistent b0 db' cid"
proof -
  have ord': "creationOrdered db'"
    using ord txns time by (rule creationOrdered_snoc)
  show ?thesis
  proof (cases "customerId t = cid \<and> status t = Completed")
    case True
    have "completedOf cid (walletTransactions db') = completedOf cid (walletTransactions db) @ [t]"
      using True by (simp add: txns completedOf_snoc)
    then have "balanceConsistent b0 db' cid"
      using balanceConsistent_snoc[OF inv ord ord', of t] paid True by simp
    then show ?thesis using ord' by simp
  next
    case False
    have "completedOf cid (walletTransactions db') = completedOf cid (walletTransactions db)"
      using False by (simp add: txns completedOf_snoc)
    moreover have "balanceOf db' cid = balanceOf db cid"
      using others[of cid] False by auto
    ultimately have "balanceConsistent b0 db' cid"
      using balanceConsistent_same[OF inv ord ord'] by simp
    then show ?thesis using ord' by simp
  qed
qed

lemma balanceOf_other:
  "c \<noteq> cid \<Longrightarrow>
     balanceOf \<lparr> customers = AList.update cid cust' (customers db), walletTransactions = ts \<rparr> c
       = balanceOf db c"
  by (simp add: balanceOf_def getCustomer_def update_conv')

lemma freshEnv_time:
  "freshEnv env db \<Longrightarrow> createdAt t = nowT env \<Longrightarrow>
     list_all (\<lambda>u. createdAt u \<le> createdAt t) (map snd (walletTransactions db))"
  by (simp add: freshEnv_def)

lemma step_debit:
  assumes ord: "creationOrdered db" and inv: "balanceConsistent b0 db cid"
    and fresh: "freshEnv env db"
    and ok: "debit env db c amt descr opts = (Inr r, db')"
  shows "creationOrdered db' \<and> balanceConsistent b0 db' cid"
proof -
  obtain cust where c: "getCustomer db c = Some cust"
    using ok by (cases "getCustomer db c") (auto simp: debit_no_customer)
  note s = debit_success[OF c ok]
  let ?t = "transaction r"
  have t: "customerId ?t = c" "status ?t = Completed" "createdAt ?t = nowT env"
      "balanceBefore ?t = walletBalance cust" "balanceAfter ?t = walletBalance cust - amt"
    by (simp_all add: s(3) debitTxn_def)
  have txns: "walletTransactions db' = walletTransactions db @ [(newTxnId env, ?t)]"
    using fresh by (simp add: s(4) freshEnv_def update_fresh)
  have b: "balanceOf db c = Some (walletBalance cust)"
    using c by (simp add: balanceOf_def)
  show ?thesis
  proof (rule step_append[OF ord inv txns freshEnv_time[OF fresh t(3)]])
    show "balanceOf db (customerId ?t) = Some (balanceBefore ?t)
            \<and> balanceOf db' (customerId ?t) = Some (balanceAfter ?t)"
      by (simp add: t b) (simp add: s(4))
  next
    fix c' assume "c' \<noteq> customerId ?t \<or> status ?t \<noteq> Completed"
    then have "c' \<noteq> c" by (simp add: t)
    then show "balanceOf db' c' = balanceOf db c'"
      unfolding s(4) by (rule balanceOf_other)
  qed
qed

lemma step_credit:
  assumes ord: "creationOrdered db" and inv: "balanceConsistent b0 db cid"
    and fresh: "freshEnv env db"
    and ok: "credit env db c amt descr opts = (Inr r, db')"
  shows "creationOrdered db' \<and> balanceConsistent b0 db' cid"
proof -
  obtain cust where c: "getCustomer db c = Some cust"
    using ok by (cases "getCustomer db c") (auto simp: credit_no_customer)
  note s = credit_success[OF c ok]
  let ?t = "transaction r"
  have t: "customerId ?t = c" "status ?t = Completed" "createdAt ?t = nowT env"
      "balanceBefore ?t = walletBalance cust" "balanceAfter ?t = walletBalance cust + amt"
    by (simp_all add: s(2) creditTxn_def)
  have txns: "walletTransactions db' = walletTransactions db @ [(newTxnId env, ?t)]"
    using fresh by (simp add: s(3) freshEnv_def update_fresh)
  have b: "balanceOf db c = Some (walletBalance cust)"
    using c by (simp add: balanceOf_def)
  show ?thesis
  proof (rule step_append[OF ord inv txns freshEnv_time[OF fresh t(3)]])
    show "balanceOf db (customerId ?t) = Some (balanceBefore ?t)
            \<and> balanceOf db' (customerId ?t) = Some (balanceAfter ?t)"
      by (simp add: t b) (simp add: s(3))
  next
    fix c' assume "c' \<noteq> customerId ?t \<or> status ?t \<noteq> Completed"
    then have "c' \<noteq> c" by (simp add: t)
    then show "balanceOf db' c' = balanceOf db c'"
      unfolding s(3) by (rule balanceOf_other)
  qed
qed

lemma step_reserve:
  assumes ord: "creationOrdered db" and inv: "balanceConsistent b0 db cid"
    and fresh: "freshEnv env db"
    and ok: "reserveBalance env db c amt descr code = (Inr t, db')"
  shows "creationOrdered db' \<and> balanceConsistent b0 db' cid"
proof -
  obtain cust where c: "getCustomer db c = Some cust"
    using ok by (cases "getCustomer db c") (auto simp: reserveBalance_def)
  note s = reserveBalance_success[OF c ok]
  have t: "status t = Pending" "createdAt t = nowT env"
    by (simp_all add: s(2) reserveTxn_def)
  have txns: "walletTransactions db' = walletTransactions db @ [(newTxnId env, t)]"
    using fresh by (simp add: s(3) freshEnv_def update_fresh)
  show ?thesis
  proof (rule step_append[OF ord inv txns freshEnv_time[OF fresh t(2)]])
    assume "status t = Completed"
    then show "balanceOf db (customerId t) = Some (balanceBefore t)
            \<and> balanceOf db' (customerId t) = Some (balanceAfter t)"
      by (simp add: t)
  next
    fix c'
    show "balanceOf db' c' = balanceOf db c'"
      by (simp add: s(3))
  qed
qed

lemma completedOf_append:
  "completedOf cid (xs @ ys) = completedOf cid xs @ completedOf cid ys"
  by (simp add: completedOf_def)

lemma completedOf_Cons:
  "completedOf cid ((k, t) # ys) =
     (if customerId t = cid \<and> status t = Completed then [t] else []) @ completedOf cid ys"
  by (simp add: completedOf_def)

lemma completedOf_none:
  "\<not> list_ex (\<lambda>u. customerId u = cid \<and> status u = Completed) (map snd ys) \<Longrightarrow>
     completedOf cid ys = []"
  by (simp add: completedOf_def list_ex_iff filter_empty_conv)

lemma step_complete:
  assumes ord: "creationOrdered db" and inv: "balanceConsistent b0 db cid"
    and und: "undisturbed db tid"
    and ok: "completeReservation env db tid = (Inr r, db')"
  shows "creationOrdered db' \<and> balanceConsistent b0 db' cid"
proof -
  obtain t where g: "getWalletTransaction db tid = Some t"
    using und by (cases "getWalletTransaction db tid") (auto simp: undisturbed_def)
  have b: "balanceOf db (customerId t) = Some (balanceBefore t)"
    and later: "\<not> list_ex (\<lambda>u. customerId u = customerId t \<and> status u = Completed)
                    (laterTransactions db tid)"
    using und by (simp_all add: undisturbed_def g)
  obtain cust where c: "getCustomer db (customerId t) = Some cust"
    using b by (auto simp: balanceOf_def)
  let ?t' = "t\<lparr>status := Completed, completedAt := Some (nowT env)\<rparr>"
  have pend: "status t = Pending"
    using ok by (auto simp: completeReservation_cases[OF g] split: if_splits)
  have db': "db' = \<lparr> customers = AList.update (customerId t)
                        (cust\<lparr>walletBalance := balanceAfter t, updatedAt := nowT env\<rparr>) (customers db),
                     walletTransactions = AList.update tid ?t' (walletTransactions db) \<rparr>"
    using ok by (simp add: completeReservation_cases[OF g] pend c)
  have m: "map_of (walletTransactions db) tid = Some t"
    using g by (simp add: getWalletTransaction_def)
  let ?pre = "takeWhile (\<lambda>kv. fst kv \<noteq> tid) (walletTransactions db)"
  let ?post = "drop 1 (dropWhile (\<lambda>kv. fst kv \<noteq> tid) (walletTransactions db))"
  have old: "walletTransactions db = ?pre @ (tid, t) # ?post"
    by (rule alist_split[OF m])
  have new: "walletTransactions db' = ?pre @ (tid, ?t') # ?post"
    by (simp add: db' update_split[OF m])
  have ord': "creationOrdered db'"
    using ord update_same_key[OF m, of createdAt ?t']
    by (simp add: creationOrdered_def db')
  have oldC: "completedOf c (walletTransactions db) = completedOf c ?pre @ completedOf c ?post" for c
    by (subst old) (simp add: completedOf_append completedOf_Cons pend)
  have newC: "completedOf c (walletTransactions db') =
                completedOf c ?pre @ (if customerId t = c then [?t'] else []) @ completedOf c ?post"
    for c
    by (subst new) (simp add: completedOf_append completedOf_Cons)
  show ?thesis
  proof (cases "customerId t = cid")
    case True
    have "completedOf cid ?post = []"
      using later by (intro completedOf_none) (simp add: laterTransactions_def True)
    then have "completedOf cid (walletTransactions db') =
                 completedOf cid (walletTransactions db) @ [?t']"
      using True by (simp add: oldC newC)
    moreover have "balanceOf db cid = Some (balanceBefore ?t')"
      using b True by simp
    moreover have "balanceOf db' cid = Some (balanceAfter ?t')"
      using True by (simp add: db')
    ultimately have "balanceConsistent b0 db' cid"
      by (rule balanceConsistent_snoc[OF inv ord ord'])
    then show ?thesis using ord' by simp
  next
    case False
    have "completedOf cid (walletTransactions db') = completedOf cid (walletTransactions db)"
      using False by (simp add: oldC newC)
    moreover have "balanceOf db' cid = balanceOf db cid"
      using False unfolding db' by (intro balanceOf_other) simp
    ultimately have "balanceConsistent b0 db' cid"
      by (rule balanceConsistent_same[OF inv ord ord'])
    then show ?thesis using ord' by simp
  qed
qed

lemma step_admissible:
  assumes "creationOrdered db" "balanceConsistent b0 db cid"
    and "admissible op db" "applyOp op db = Some db'"
  shows "creationOrdered db' \<and> balanceConsistent b0 db' cid"
proof (cases op)
  case (DebitOp env c amt descr opts)
  then show ?thesis
    using assms step_debit[OF assms(1,2), of env c amt descr opts]
    by (auto split: prod.splits sum.splits)
next
  case (CreditOp env c amt descr opts)
  then show ?thesis
    using assms step_credit[OF assms(1,2), of env c amt descr opts]
    by (auto split: prod.splits sum.splits)
next
  case (ReserveOp env c amt descr code)
  then show ?thesis
    using assms step_reserve[OF assms(1,2), of env c amt descr code]
    by (auto split: prod.splits sum.splits)
next
  case (CompleteOp env tid)
  then show ?thesis
    using assms step_complete[OF assms(1,2), of tid env]
    by (auto split: prod.splits sum.splits)
qed

subsection \<open>Sequences of operations\<close>

text \<open>
  C1, as the claim states it, fails once a reservation is completed after another
  operation has changed the account. On an account with balance 1000: reserve 500 (a
  pending record 1000 to 500), debit 100 (a completed record 1000 to 900, balance 900),
  complete the reservation. All three calls succeed. The balance is then 500, and the
  completed transactions in order of creation are 1000 to 500 followed by 1000 to 900:
  the chain is broken, and the balance is not the \<open>balanceAfter\<close> of the latest one.
\<close>

theorem balance_consistency_counterexample:
  "runOps reserveDebitComplete exampleDb \<noteq> None
   \<and> balanceOf (the (runOps reserveDebitComplete exampleDb)) ''c1'' = Some 500
   \<and> map balanceBefore (completedTransactions (the (runOps reserveDebitComplete exampleDb)) ''c1'')
        = [1000, 1000]
   \<and> map balanceAfter (completedTransactions (the (runOps reserveDebitComplete exampleDb)) ''c1'')
        = [500, 900]
   \<and> \<not> balanceConsistent 1000 (the (runOps reserveDebitComplete exampleDb)) ''c1''"
  by code_simp

text \<open>
  C1, amended. Take a store whose transactions lie in order of creation and in which the
  invariant holds for an account, and any sequence of successful \<open>debit\<close>, \<open>credit\<close>,
  \<open>reserveBalance\<close> and \<open>completeReservation\<close> calls in which every new transaction gets an
  identifier not in use and a creation time not before those stored, and every reservation
  is completed undisturbed: the stored balance of its account still is the reservation's
  \<open>balanceBefore\<close>, and no completed transaction of that account was created after the
  reservation. Then all calls of the sequence succeed and afterwards, ordering the
  account's completed transactions by creation time, each \<open>balanceAfter\<close> is the next
  one's \<open>balanceBefore\<close>, and the stored balance is the \<open>balanceAfter\<close> of the last of
  them, or the initial balance if there is none.
\<close>

theorem balance_consistency:
  assumes "creationOrdered db" and "balanceConsistent initialBalance db cid"
    and "admissibleRun ops db"
  shows "\<exists>db'. runOps ops db = Some db'
           \<and> creationOrdered db' \<and> balanceConsistent initialBalance db' cid"
  using assms
proof (induction ops arbitrary: db)
  case Nil
  then show ?case by simp
next
  case (Cons op ops)
  from Cons.prems(3) obtain db1 where a: "admissible op db" "applyOp op db = Some db1"
      "admissibleRun ops db1"
    by (auto split: option.splits)
  have "creationOrdered db1 \<and> balanceConsistent initialBalance db1 cid"
    using step_admissible[OF Cons.prems(1,2) a(1,2)] .
  then show ?case
    using Cons.IH[of db1] a by simp
qed

theorem balance_consistency_witness:
  "creationOrdered exampleDb
   \<and> balanceConsistent 1000 exampleDb ''c1''
   \<and> admissibleRun reserveCompleteDebitCredit exampleDb
   \<and> (\<exists>db'. runOps reserveCompleteDebitCredit exampleDb = Some db'
          \<and> creationOrdered db' \<and> balanceConsistent 1000 db' ''c1'')
   \<and> balanceOf (the (runOps reserveCompleteDebitCredit exampleDb)) ''c1'' = Some 450"
proof -
  have o: "creationOrdered exampleDb"
    by code_simp
  have i: "balanceConsistent 1000 exampleDb ''c1''"
    by code_simp
  have a: "admissibleRun reserveCompleteDebitCredit exampleDb"
    by code_simp
  have b: "balanceOf (the (runOps reserveCompleteDebitCredit exampleDb)) ''c1'' = Some 450"
    by code_simp
  show ?thesis
    using balance_consistency[OF o i a] o i a b by blast
qed

end
